theory Spec2Isabelle
  imports Main
begin

section \<open>The PostgreSQL gateway of \<open>mcp_postgres/server.py\<close>\<close>

text \<open>
  The handlers of \<open>PostgresServer._setup_handlers\<close> are embedded as functions over an
  explicit frame: the state of the outside world (the connection pool and the database
  behind it), the calls made on the driver so far, and the handler's local variable
  \<open>conn\<close>. The driver (\<open>psycopg2\<close> and its pool) is a parameter: every call may return
  or raise, so that each \<open>try\<close>, \<open>except\<close> and \<open>finally\<close> of the source is a branch here.
\<close>

subsection \<open>Python values and exceptions\<close>

datatype pyval = PNone | PStr string | PInt int | PBool bool

text \<open>
  The three \<open>ValueError\<close> messages of \<open>handle_call_tool\<close> (lines 152, 156 and 160; the
  source writes them as Chinese literals, the first one formatted with the tool name).
\<close>

datatype errmsg = UnknownTool string | EmptyQuery | NonSelectQuery

text \<open>
  \<open>DbError\<close> stands for \<open>psycopg2.Error\<close> and its subclasses (the pool's \<open>PoolError\<close> is
  one), with the text \<open>str(e)\<close>; \<open>UnboundLocalError\<close> carries the variable's name.
\<close>

datatype exn =
    DbError string
  | ValueError errmsg
  | IndexError
  | TypeError
  | AttributeError
  | UnboundLocalError string
  | OtherError string

definition sbind :: "exn + 'a \<Rightarrow> ('a \<Rightarrow> exn + 'b) \<Rightarrow> exn + 'b" where
  "sbind r k = (case r of Inl e \<Rightarrow> Inl e | Inr x \<Rightarrow> k x)"

fun map_exn :: "('a \<Rightarrow> exn + 'b) \<Rightarrow> 'a list \<Rightarrow> exn + 'b list" where
  "map_exn g [] = Inr []"
| "map_exn g (x # xs) = sbind (g x) (\<lambda>y. sbind (map_exn g xs) (\<lambda>ys. Inr (y # ys)))"

definition getitem :: "'a list \<Rightarrow> nat \<Rightarrow> exn + 'a" where
  \<comment> \<open>\<open>xs[i]\<close> for \<open>i \<ge> 0\<close>\<close>
  "getitem xs i = (if i < length xs then Inr (xs ! i) else Inl IndexError)"

definition getitem_neg :: "'a list \<Rightarrow> nat \<Rightarrow> exn + 'a" where
  \<comment> \<open>\<open>xs[-k]\<close> for \<open>k > 0\<close>\<close>
  "getitem_neg xs k =
     (if 0 < k \<and> k \<le> length xs then Inr (xs ! (length xs - k)) else Inl IndexError)"

fun truthy :: "pyval \<Rightarrow> bool" where
  "truthy PNone = False"
| "truthy (PStr s) = (s \<noteq> [])"
| "truthy (PInt i) = (i \<noteq> 0)"
| "truthy (PBool b) = b"

subsection \<open>Strings\<close>

text \<open>
  A Python \<open>str\<close> is modelled as a \<open>string\<close>: a list of code points below 256.
  \<open>isspace\<close> and \<open>lower_char\<close> are Python's \<open>str.isspace\<close> and \<open>str.lower\<close> on these
  code points.
\<close>

definition isspace :: "char \<Rightarrow> bool" where
  "isspace c =
     (let n = (of_char c :: nat)
      in (9 \<le> n \<and> n \<le> 13) \<or> (28 \<le> n \<and> n \<le> 32) \<or> n = 133 \<or> n = 160)"

definition strip :: "string \<Rightarrow> string" where
  "strip s = rev (dropWhile isspace (rev (dropWhile isspace s)))"

definition lower_char :: "char \<Rightarrow> char" where
  "lower_char c =
     (let n = (of_char c :: nat)
      in if (65 \<le> n \<and> n \<le> 90) \<or> (192 \<le> n \<and> n \<le> 222 \<and> n \<noteq> 215)
         then char_of (n + 32) else c)"

definition lower :: "string \<Rightarrow> string" where
  "lower s = map lower_char s"

definition startswith :: "string \<Rightarrow> string \<Rightarrow> bool" where
  "startswith s p = (take (length p) s = p)"

fun split_slash :: "string \<Rightarrow> string list" where
  \<comment> \<open>\<open>s.split('/')\<close>: at least one piece, empty pieces kept\<close>
  "split_slash [] = [[]]"
| "split_slash (c # cs) =
     (if c = CHR ''/'' then [] # split_slash cs
      else (case split_slash cs of [] \<Rightarrow> [[c]] | p # ps \<Rightarrow> (c # p) # ps))"

fun digits :: "nat \<Rightarrow> string" where
  "digits n = (if n < 10 then [char_of (48 + n)] else digits (n div 10) @ [char_of (48 + n mod 10)])"

fun py_str :: "pyval \<Rightarrow> string" where
  \<comment> \<open>\<open>str(v)\<close>, as an f-string formats a value\<close>
  "py_str PNone = ''None''"
| "py_str (PStr s) = s"
| "py_str (PInt i) = (if i < 0 then CHR ''-'' # digits (nat (- i)) else digits (nat i))"
| "py_str (PBool b) = (if b then ''True'' else ''False'')"

definition newline :: char where
  "newline = CHR 0x0A"

fun join_lines :: "string list \<Rightarrow> string" where
  "join_lines [] = []"
| "join_lines [l] = l"
| "join_lines (l # ls) = l @ newline # join_lines ls"

subsection \<open>The driver and the calls made on it\<close>

type_synonym conn = nat
type_synonym cur = nat

text \<open>
  The operations of \<open>psycopg2\<close> that the handlers use, over a world \<open>'w\<close>:
  \<open>pool.getconn()\<close>, \<open>pool.putconn(conn)\<close>, \<open>conn.cursor()\<close>, \<open>cur.execute(query, vars)\<close>,
  \<open>cur.fetchall()\<close>, the attribute \<open>cur.description\<close> and the \<open>cur.close()\<close> that the
  cursor's \<open>__exit__\<close> performs at the end of a \<open>with\<close> block.
\<close>

record 'w driver =
  getconn :: "'w \<Rightarrow> (exn + conn) \<times> 'w"
  putconn :: "conn \<Rightarrow> 'w \<Rightarrow> (exn + unit) \<times> 'w"
  cursor :: "conn \<Rightarrow> 'w \<Rightarrow> (exn + cur) \<times> 'w"
  execute :: "cur \<Rightarrow> string \<Rightarrow> pyval list option \<Rightarrow> 'w \<Rightarrow> (exn + unit) \<times> 'w"
  fetchall :: "cur \<Rightarrow> 'w \<Rightarrow> (exn + pyval list list) \<times> 'w"
  description :: "cur \<Rightarrow> 'w \<Rightarrow> pyval list list option"
  close :: "cur \<Rightarrow> 'w \<Rightarrow> (exn + unit) \<times> 'w"

datatype level = Info | Error

text \<open>The messages handed to \<open>self.log\<close> (lines 71, 123, 162, 181 and 186).\<close>

datatype logmsg =
    ListTablesFailed string
  | ReadSchemaFailed string
  | ExecutingQuery string
  | QueryDone nat
  | QueryFailed string

datatype call =
    GetConn
  | PutConn conn
  | Cursor conn
  | Execute cur string "pyval list option"
  | FetchAll cur
  | Close cur
  | Log level logmsg

text \<open>An event is a call together with whether it returned (\<open>True\<close>) or raised.\<close>

type_synonym event = "call \<times> bool"

record 'w frame =
  world :: 'w
  trace :: "event list"
  conn_var :: "conn option"

type_synonym ('w, 'a) py = "'w frame \<Rightarrow> (exn + 'a) \<times> 'w frame"

definition ret :: "'a \<Rightarrow> ('w, 'a) py" where
  "ret x f = (Inr x, f)"

definition raise :: "exn \<Rightarrow> ('w, 'a) py" where
  "raise e f = (Inl e, f)"

definition lift :: "exn + 'a \<Rightarrow> ('w, 'a) py" where
  "lift r f = (r, f)"

definition bind :: "('w, 'a) py \<Rightarrow> ('a \<Rightarrow> ('w, 'b) py) \<Rightarrow> ('w, 'b) py" where
  "bind m k f = (case m f of (Inl e, f1) \<Rightarrow> (Inl e, f1) | (Inr x, f1) \<Rightarrow> k x f1)"

definition invoke :: "call \<Rightarrow> ('w \<Rightarrow> (exn + 'a) \<times> 'w) \<Rightarrow> ('w, 'a) py" where
  \<comment> \<open>a call on the driver: the world moves on and the call is recorded\<close>
  "invoke c op f =
     (case op (world f) of
        (r, w1) \<Rightarrow> (r, f\<lparr>world := w1, trace := trace f @ [(c, \<not> isl r)]\<rparr>))"

definition log :: "level \<Rightarrow> logmsg \<Rightarrow> ('w, unit) py" where
  \<comment> \<open>\<open>self.log(level, message)\<close>; the logger of module \<open>log\<close> is taken to return\<close>
  "log l m f = (Inr (), f\<lparr>trace := trace f @ [(Log l m, True)]\<rparr>)"

definition try_finally :: "('w, 'a) py \<Rightarrow> ('w, unit) py \<Rightarrow> ('w, 'a) py" where
  \<comment> \<open>\<open>try: m finally: fin\<close>: an exception of \<open>fin\<close> replaces the outcome of \<open>m\<close>\<close>
  "try_finally m fin f =
     (case m f of
        (r, f1) \<Rightarrow> (case fin f1 of (Inl e, f2) \<Rightarrow> (Inl e, f2) | (Inr u, f2) \<Rightarrow> (r, f2)))"

definition except_db :: "('w, 'a) py \<Rightarrow> (string \<Rightarrow> ('w, 'a) py) \<Rightarrow> ('w, 'a) py" where
  \<comment> \<open>\<open>try: m except psycopg2.Error as e: h(str(e))\<close>\<close>
  "except_db m h f =
     (case m f of
        (Inl (DbError msg), f1) \<Rightarrow> h msg f1
      | (r, f1) \<Rightarrow> (r, f1))"

definition set_conn :: "conn \<Rightarrow> ('w, unit) py" where
  \<comment> \<open>the assignment to the local \<open>conn\<close>\<close>
  "set_conn c f = (Inr (), f\<lparr>conn_var := Some c\<rparr>)"

definition get_conn :: "('w, conn) py" where
  \<comment> \<open>a read of the local \<open>conn\<close>, which raises while it is unbound\<close>
  "get_conn f =
     (case conn_var f of
        None \<Rightarrow> (Inl (UnboundLocalError ''conn''), f)
      | Some c \<Rightarrow> (Inr c, f))"

definition with_cursor :: "'w driver \<Rightarrow> (cur \<Rightarrow> ('w, 'a) py) \<Rightarrow> ('w, 'a) py" where
  \<comment> \<open>\<open>with conn.cursor() as cur: body\<close>\<close>
  "with_cursor d body =
     bind get_conn (\<lambda>c.
     bind (invoke (Cursor c) (cursor d c)) (\<lambda>k.
     try_finally (body k) (invoke (Close k) (close d k))))"

definition release :: "'w driver \<Rightarrow> ('w, unit) py" where
  \<comment> \<open>\<open>self.pool.putconn(conn)\<close>, the \<open>finally\<close> block of each handler\<close>
  "release d = bind get_conn (\<lambda>c. invoke (PutConn c) (putconn d c))"

definition get_description :: "'w driver \<Rightarrow> cur \<Rightarrow> ('w, pyval list list option) py" where
  \<comment> \<open>a read of the attribute \<open>cur.description\<close>\<close>
  "get_description d k f = (Inr (description d k (world f)), f)"

definition acquire :: "'w driver \<Rightarrow> ('w, unit) py" where
  \<comment> \<open>\<open>conn = self.pool.getconn()\<close>\<close>
  "acquire d = bind (invoke GetConn (getconn d)) set_conn"

definition run_handler :: "('w, 'a) py \<Rightarrow> 'w \<Rightarrow> (exn + 'a) \<times> 'w \<times> event list" where
  \<comment> \<open>one invocation: a fresh frame, \<open>conn\<close> unbound; the outcome, the world left behind
      and the calls made\<close>
  "run_handler m w =
     (case m \<lparr>world = w, trace = [], conn_var = None\<rparr> of
        (r, f) \<Rightarrow> (r, world f, trace f))"

subsection \<open>The \<open>query\<close> tool\<close>

record query_result =
  qr_columns :: "pyval list"
  qr_rows :: "(pyval \<times> pyval) list list"
  qr_row_count :: nat

text \<open>
  The text of a tool response: \<open>str\<close> of the result dictionary (line 175), or the
  failure message formatted with \<open>str(e)\<close> (line 186).
\<close>

datatype payload = ResultText query_result | QueryFailedText string

record text_content =
  tc_type :: string
  tc_text :: payload

fun py_eq :: "pyval \<Rightarrow> pyval \<Rightarrow> bool" where
  \<comment> \<open>\<open>a == b\<close>: \<open>True\<close> and \<open>False\<close> are the integers 1 and 0\<close>
  "py_eq (PInt i) (PBool b) = (i = (if b then 1 else 0))"
| "py_eq (PBool b) (PInt i) = (i = (if b then 1 else 0))"
| "py_eq a b = (a = b)"

fun dict_set :: "pyval \<Rightarrow> 'v \<Rightarrow> (pyval \<times> 'v) list \<Rightarrow> (pyval \<times> 'v) list" where
  "dict_set k v [] = [(k, v)]"
| "dict_set k v ((k1, v1) # kvs) =
     (if py_eq k k1 then (k1, v) # kvs else (k1, v1) # dict_set k v kvs)"

definition py_dict :: "(pyval \<times> 'v) list \<Rightarrow> (pyval \<times> 'v) list" where
  \<comment> \<open>\<open>dict(pairs)\<close>: keys in order of first insertion; a pair whose key equals an earlier
      one replaces that key's value and keeps the earlier key\<close>
  "py_dict kvs = foldl (\<lambda>d (k, v). dict_set k v d) [] kvs"

definition begin_sql :: string where
  "begin_sql = ''BEGIN TRANSACTION READ ONLY''"

definition rollback_sql :: string where
  "rollback_sql = ''ROLLBACK''"

definition column_names :: "pyval list list option \<Rightarrow> exn + pyval list" where
  \<comment> \<open>\<open>[desc[0] for desc in cur.description]\<close>\<close>
  "column_names ds =
     (case ds of None \<Rightarrow> Inl TypeError | Some descs \<Rightarrow> map_exn (\<lambda>desc. getitem desc 0) descs)"

definition run_query :: "'w driver \<Rightarrow> cur \<Rightarrow> string \<Rightarrow> ('w, text_content list) py" where
  \<comment> \<open>lines 169 to 184: the inner \<open>try\<close> with its \<open>finally\<close>\<close>
  "run_query d k sql =
     try_finally
       (bind (invoke (Execute k sql None) (execute d k sql None)) (\<lambda>_.
        bind (invoke (FetchAll k) (fetchall d k)) (\<lambda>results.
        bind (get_description d k) (\<lambda>ds.
        bind (lift (column_names ds)) (\<lambda>columns.
        bind (log Info (QueryDone (length results))) (\<lambda>_.
        ret [\<lparr>tc_type = ''text'',
              tc_text = ResultText
                \<lparr>qr_columns = columns,
                 qr_rows = map (\<lambda>row. py_dict (zip columns row)) results,
                 qr_row_count = length results\<rparr>\<rparr>]))))))
       (invoke (Execute k rollback_sql None) (execute d k rollback_sql None))"

definition get_sql :: "(string \<rightharpoonup> pyval) \<Rightarrow> exn + string" where
  \<comment> \<open>\<open>arguments.get("sql", "").strip()\<close>\<close>
  "get_sql arguments =
     (case (case arguments ''sql'' of None \<Rightarrow> PStr [] | Some v \<Rightarrow> v) of
        PStr s \<Rightarrow> Inr (strip s)
      | _ \<Rightarrow> Inl AttributeError)"

definition call_tool :: "'w driver \<Rightarrow> string \<Rightarrow> (string \<rightharpoonup> pyval) \<Rightarrow> ('w, text_content list) py" where
  "call_tool d name arguments =
     (if name \<noteq> ''query'' then raise (ValueError (UnknownTool name))
      else
        bind (lift (get_sql arguments)) (\<lambda>sql.
        if sql = [] then raise (ValueError EmptyQuery)
        else if \<not> startswith (lower sql) ''select'' then raise (ValueError NonSelectQuery)
        else
          bind (log Info (ExecutingQuery sql)) (\<lambda>_.
          try_finally
            (except_db
               (bind (acquire d) (\<lambda>_.
                with_cursor d (\<lambda>k.
                  bind (invoke (Execute k begin_sql None) (execute d k begin_sql None)) (\<lambda>_.
                  run_query d k sql))))
               (\<lambda>msg.
                  bind (log Error (QueryFailed msg)) (\<lambda>_.
                  ret [\<lparr>tc_type = ''text'', tc_text = QueryFailedText msg\<rparr>])))
            (release d))))"

definition handle_call_tool ::
  "'w driver \<Rightarrow> string \<Rightarrow> (string \<rightharpoonup> pyval) \<Rightarrow> 'w \<Rightarrow> (exn + text_content list) \<times> 'w \<times> event list" where
  "handle_call_tool d name arguments = run_handler (call_tool d name arguments)"

subsection \<open>Listing the tables\<close>

text \<open>
  The keyword arguments that line 63 hands to \<open>types.Resource\<close>. The class is the
  framework's: what it makes of them (it parses \<open>uri\<close> into a URL object and may reject it)
  is not part of this embedding.
\<close>

record resource =
  res_uri :: string
  res_name :: string
  res_description :: pyval
  res_mimeType :: string

definition list_tables_sql :: string where
  \<comment> \<open>the statement of \<open>handle_list_resources\<close>, lines 50 to 59\<close>
  "list_tables_sql = join_lines
     ['''',
      ''                        SELECT '',
      ''                            table_name,'',
      ''                            obj_description('',
      ''                                (quote_ident(table_schema) || '.' || quote_ident(table_name))::regclass,'',
      ''                                'pg_class'' @ [CHR 0x27],
      ''                            ) as description'',
      ''                        FROM information_schema.tables '',
      ''                        WHERE table_schema = 'public'' @ [CHR 0x27],
      ''                    '']"

definition resource_of :: "string \<Rightarrow> pyval list \<Rightarrow> exn + resource" where
  \<comment> \<open>lines 63 to 68, for one row \<open>table\<close>; \<open>host\<close> is \<open>self.config.host\<close>\<close>
  "resource_of host table =
     sbind (getitem table 0) (\<lambda>t0.
     sbind (getitem table 1) (\<lambda>t1.
     Inr \<lparr>res_uri = ''postgres://'' @ host @ ''/'' @ py_str t0 @ ''/schema'',
          res_name = py_str t0 @ '' schema'',
          res_description = (if truthy t1 then t1 else PNone),
          res_mimeType = ''application/json''\<rparr>))"

definition list_resources :: "'w driver \<Rightarrow> string \<Rightarrow> ('w, resource list) py" where
  "list_resources d host =
     try_finally
       (except_db
          (bind (acquire d) (\<lambda>_.
           with_cursor d (\<lambda>k.
             bind (invoke (Execute k list_tables_sql None) (execute d k list_tables_sql None)) (\<lambda>_.
             bind (invoke (FetchAll k) (fetchall d k)) (\<lambda>tables.
             lift (map_exn (resource_of host) tables))))))
          (\<lambda>msg.
             bind (log Error (ListTablesFailed msg)) (\<lambda>_.
             raise (DbError msg))))
       (release d)"

definition handle_list_resources ::
  "'w driver \<Rightarrow> string \<Rightarrow> 'w \<Rightarrow> (exn + resource list) \<times> 'w \<times> event list" where
  "handle_list_resources d host = run_handler (list_resources d host)"

subsection \<open>Reading a table's schema\<close>

record column_info =
  col_name :: pyval
  col_type :: pyval
  col_nullable :: bool
  col_description :: pyval

record constraint_info =
  con_name :: pyval
  con_type :: pyval

text \<open>The dictionary of lines 110 to 121; the handler returns \<open>str\<close> of it.\<close>

record schema_document =
  doc_columns :: "column_info list"
  doc_constraints :: "constraint_info list"

definition columns_sql :: string where
  \<comment> \<open>the first statement of \<open>handle_read_resource\<close>, lines 84 to 96\<close>
  "columns_sql = join_lines
     ['''',
      ''                        SELECT '',
      ''                            column_name,'',
      ''                            data_type,'',
      ''                            is_nullable,'',
      ''                            col_description('',
      ''                                (quote_ident(table_schema) || '.' || quote_ident(table_name))::regclass,'',
      ''                                ordinal_position'',
      ''                            ) as description'',
      ''                        FROM information_schema.columns '',
      ''                        WHERE table_name = %s'',
      ''                        ORDER BY ordinal_position'',
      ''                    '']"

definition constraints_sql :: string where
  \<comment> \<open>the second statement of \<open>handle_read_resource\<close>, lines 100 to 107\<close>
  "constraints_sql = join_lines
     ['''',
      ''                        SELECT'',
      ''                            conname as constraint_name,'',
      ''                            contype as constraint_type'',
      ''                        FROM pg_constraint c'',
      ''                        JOIN pg_class t ON c.conrelid = t.oid'',
      ''                        WHERE t.relname = %s'',
      ''                    '']"

definition column_of :: "pyval list \<Rightarrow> exn + column_info" where
  \<comment> \<open>lines 111 to 116, for one row \<open>col\<close>\<close>
  "column_of col =
     sbind (getitem col 0) (\<lambda>c0.
     sbind (getitem col 1) (\<lambda>c1.
     sbind (getitem col 2) (\<lambda>c2.
     sbind (getitem col 3) (\<lambda>c3.
     Inr \<lparr>col_name = c0, col_type = c1, col_nullable = (c2 = PStr ''YES''),
          col_description = c3\<rparr>))))"

definition constraint_of :: "pyval list \<Rightarrow> exn + constraint_info" where
  \<comment> \<open>lines 117 to 120, for one row \<open>con\<close>\<close>
  "constraint_of con =
     sbind (getitem con 0) (\<lambda>c0.
     sbind (getitem con 1) (\<lambda>c1.
     Inr \<lparr>con_name = c0, con_type = c1\<rparr>))"

definition describe_table :: "'w driver \<Rightarrow> string \<Rightarrow> ('w, schema_document) py" where
  \<comment> \<open>lines 81 to 121: the rest of the \<open>try\<close> block once \<open>table_name\<close> is bound\<close>
  "describe_table d table_name =
     bind (acquire d) (\<lambda>_.
     with_cursor d (\<lambda>k.
       bind (invoke (Execute k columns_sql (Some [PStr table_name]))
               (execute d k columns_sql (Some [PStr table_name]))) (\<lambda>_.
       bind (invoke (FetchAll k) (fetchall d k)) (\<lambda>columns.
       bind (invoke (Execute k constraints_sql (Some [PStr table_name]))
               (execute d k constraints_sql (Some [PStr table_name]))) (\<lambda>_.
       bind (invoke (FetchAll k) (fetchall d k)) (\<lambda>constraints.
       bind (lift (map_exn column_of columns)) (\<lambda>cols.
       bind (lift (map_exn constraint_of constraints)) (\<lambda>cons.
       ret \<lparr>doc_columns = cols, doc_constraints = cons\<rparr>))))))))"

definition read_resource :: "'w driver \<Rightarrow> string \<Rightarrow> ('w, schema_document) py" where
  "read_resource d uri =
     try_finally
       (except_db
          (bind (lift (getitem_neg (split_slash uri) 2)) (\<lambda>table_name.
           describe_table d table_name))
          (\<lambda>msg.
             bind (log Error (ReadSchemaFailed msg)) (\<lambda>_.
             raise (DbError msg))))
       (release d)"

definition handle_read_resource ::
  "'w driver \<Rightarrow> string \<Rightarrow> 'w \<Rightarrow> (exn + schema_document) \<times> 'w \<times> event list" where
  "handle_read_resource d uri = run_handler (read_resource d uri)"

subsection \<open>What a trace shows\<close>

definition is_statement :: "event \<Rightarrow> bool" where
  "is_statement e = (case fst e of Execute k q v \<Rightarrow> True | _ \<Rightarrow> False)"

definition statement_text :: "event \<Rightarrow> string" where
  "statement_text e = (case fst e of Execute k q v \<Rightarrow> q | _ \<Rightarrow> [])"

definition statements :: "event list \<Rightarrow> (string \<times> bool) list" where
  \<comment> \<open>the statements sent through \<open>cur.execute\<close>, in order, each with whether it returned\<close>
  "statements tr = map (\<lambda>e. (statement_text e, snd e)) (filter is_statement tr)"

definition statement_vars :: "event list \<Rightarrow> (string \<times> pyval list option) list" where
  \<comment> \<open>the text and the bound parameters of each \<open>cur.execute\<close>, in order\<close>
  "statement_vars tr =
     map (\<lambda>e. case fst e of Execute k q v \<Rightarrow> (q, v) | _ \<Rightarrow> ([], None)) (filter is_statement tr)"

definition is_pool :: "event \<Rightarrow> bool" where
  "is_pool e = (case fst e of GetConn \<Rightarrow> True | PutConn c \<Rightarrow> True | _ \<Rightarrow> False)"

definition acquire_calls :: "event list \<Rightarrow> nat" where
  \<comment> \<open>the calls of \<open>pool.getconn\<close>\<close>
  "acquire_calls tr = length (filter (\<lambda>e. fst e = GetConn) tr)"

definition acquired :: "event list \<Rightarrow> nat" where
  \<comment> \<open>the calls of \<open>pool.getconn\<close> that returned a connection\<close>
  "acquired tr = length (filter (\<lambda>e. e = (GetConn, True)) tr)"

definition release_calls :: "event list \<Rightarrow> nat" where
  \<comment> \<open>the calls of \<open>pool.putconn\<close>\<close>
  "release_calls tr = length (filter (\<lambda>e. case fst e of PutConn c \<Rightarrow> True | _ \<Rightarrow> False) tr)"

subsection \<open>A scripted driver\<close>

text \<open>
  A double of the driver for worked examples: the world is a script of outcomes, one
  consumed by each call (a call beyond the script returns), and the value of
  \<open>cur.description\<close>.
\<close>

datatype resp = Raises exn | Returns | ReturnsRows "pyval list list"

record db_double =
  script :: "resp list"
  desc :: "pyval list list option"

definition next_resp :: "db_double \<Rightarrow> resp \<times> db_double" where
  "next_resp w = (case script w of [] \<Rightarrow> (Returns, w) | r # rs \<Rightarrow> (r, w\<lparr>script := rs\<rparr>))"

definition answer :: "'a \<Rightarrow> db_double \<Rightarrow> (exn + 'a) \<times> db_double" where
  "answer x w = (case next_resp w of (Raises e, w1) \<Rightarrow> (Inl e, w1) | (r, w1) \<Rightarrow> (Inr x, w1))"

definition answer_rows :: "db_double \<Rightarrow> (exn + pyval list list) \<times> db_double" where
  "answer_rows w =
     (case next_resp w of
        (Raises e, w1) \<Rightarrow> (Inl e, w1)
      | (ReturnsRows rows, w1) \<Rightarrow> (Inr rows, w1)
      | (Returns, w1) \<Rightarrow> (Inr [], w1))"

definition scripted :: "db_double driver" where
  "scripted =
     \<lparr>getconn = answer 1,
      putconn = (\<lambda>c. answer ()),
      cursor = (\<lambda>c. answer 1),
      execute = (\<lambda>k q vars. answer ()),
      fetchall = (\<lambda>k. answer_rows),
      description = (\<lambda>k. desc),
      close = (\<lambda>k. answer ())\<rparr>"

definition idle :: db_double where
  \<comment> \<open>every call returns; statements yield no rows and no columns\<close>
  "idle = \<lparr>script = [], desc = Some []\<rparr>"

subsection \<open>A double of a PostgreSQL session\<close>

text \<open>
  A second double of the driver, for the properties that depend on what the database does
  with a statement. It reads the text it is given and follows PostgreSQL in these respects:
  \<^item> a text is a sequence of commands separated by \<open>;\<close>, run in order;
  \<^item> \<open>BEGIN\<close> opens a transaction block, read-only when it says so; \<open>COMMIT\<close> makes the
    session's changes durable and closes the block; \<open>ROLLBACK\<close> discards them and closes it;
  \<^item> \<open>DROP TABLE\<close> is refused in a read-only transaction; outside a transaction block it is
    durable at once;
  \<^item> \<open>information_schema.columns\<close> reports a column's name, the name of its type
    (\<open>integer\<close> for \<open>int\<close>), \<open>YES\<close> or \<open>NO\<close> for nullable and its comment, in the order of the
    stored rows unless the query orders them by \<open>ordinal_position\<close>; \<open>pg_constraint\<close> reports
    the name and the one-letter kind of a table's constraints;
  \<^item> \<open>fetchall\<close> raises when the last command produced no result set.
  A command is read by its words, folded to lower case as the server folds keywords and
  unquoted names; a \<open>SELECT\<close> is told by the relation after its first \<open>FROM\<close>. The pool
  always has a connection, and the rows of any other \<open>SELECT\<close> are not computed (it
  yields none).
\<close>

fun split_semi :: "string \<Rightarrow> string list" where
  "split_semi [] = [[]]"
| "split_semi (c # cs) =
     (if c = CHR '';'' then [] # split_semi cs
      else (case split_semi cs of [] \<Rightarrow> [[c]] | p # ps \<Rightarrow> (c # p) # ps))"

fun split_space :: "string \<Rightarrow> string list" where
  "split_space [] = [[]]"
| "split_space (c # cs) =
     (if isspace c then [] # split_space cs
      else (case split_space cs of [] \<Rightarrow> [[c]] | p # ps \<Rightarrow> (c # p) # ps))"

definition tokens :: "string \<Rightarrow> string list" where
  \<comment> \<open>the words of a command, in lower case\<close>
  "tokens s = map lower (filter (\<lambda>w. w \<noteq> []) (split_space s))"

fun has_run :: "'a list \<Rightarrow> 'a list \<Rightarrow> bool" where
  \<comment> \<open>\<open>p\<close> occurs in \<open>xs\<close> as a run of neighbours\<close>
  "has_run [] p = (p = [])"
| "has_run (x # xs) p = (take (length p) (x # xs) = p \<or> has_run xs p)"

definition relation :: "string list \<Rightarrow> string option" where
  \<comment> \<open>the word after the first \<open>from\<close>\<close>
  "relation ws =
     (case dropWhile (\<lambda>w. w \<noteq> ''from'') ws of
        f # r # rest \<Rightarrow> Some r
      | _ \<Rightarrow> None)"

datatype command =
    Empty
  | Begin bool
  | Commit
  | Rollback
  | DropTable string
  | SelectTables
  | SelectColumns bool
  | SelectConstraints
  | SelectOther
  | Unknown

definition classify :: "string list \<Rightarrow> command" where
  "classify ws =
     (case ws of
        [] \<Rightarrow> Empty
      | k # rest \<Rightarrow>
          if k = ''begin'' then Begin (has_run rest [''read'', ''only''])
          else if ws = [''commit''] then Commit
          else if ws = [''rollback''] then Rollback
          else if k = ''drop'' then
            (case rest of
               [t, n] \<Rightarrow> if t = ''table'' then DropTable n else Unknown
             | _ \<Rightarrow> Unknown)
          else if k = ''select'' then
            (case relation rest of
               None \<Rightarrow> SelectOther
             | Some r \<Rightarrow>
                 if r = ''information_schema.tables'' then SelectTables
                 else if r = ''information_schema.columns''
                      \<and> has_run rest [''where'', ''table_name'', ''='', ''%s'']
                   then SelectColumns (has_run rest [''order'', ''by'', ''ordinal_position''])
                 else if r = ''pg_constraint''
                      \<and> has_run rest [''where'', ''t.relname'', ''='', ''%s'']
                   then SelectConstraints
                 else SelectOther)
          else Unknown)"

definition parse :: "string \<Rightarrow> command list" where
  "parse q = map (\<lambda>c. classify (tokens c)) (split_semi q)"

datatype sqltype = SqlInt | SqlText

fun data_type :: "sqltype \<Rightarrow> string" where
  "data_type SqlInt = ''integer''"
| "data_type SqlText = ''text''"

record column_def =
  cd_table :: string
  cd_name :: string
  cd_type :: sqltype
  cd_not_null :: bool
  cd_ordinal :: nat
  cd_comment :: pyval

record constraint_def =
  ct_table :: string
  ct_name :: string
  ct_kind :: string

record catalog =
  cat_tables :: "(string \<times> pyval) list"
  cat_columns :: "column_def list"
  cat_constraints :: "constraint_def list"

record session =
  durable :: catalog
  seen :: catalog
  in_block :: bool
  read_only :: bool
  result_set :: "pyval list list option"

definition drop_table :: "string \<Rightarrow> catalog \<Rightarrow> catalog" where
  "drop_table n cat =
     \<lparr>cat_tables = filter (\<lambda>t. fst t \<noteq> n) (cat_tables cat),
      cat_columns = filter (\<lambda>c. cd_table c \<noteq> n) (cat_columns cat),
      cat_constraints = filter (\<lambda>c. ct_table c \<noteq> n) (cat_constraints cat)\<rparr>"

definition column_row :: "column_def \<Rightarrow> pyval list" where
  "column_row c =
     [PStr (cd_name c), PStr (data_type (cd_type c)),
      PStr (if cd_not_null c then ''NO'' else ''YES''), cd_comment c]"

definition constraint_row :: "constraint_def \<Rightarrow> pyval list" where
  "constraint_row c = [PStr (ct_name c), PStr (ct_kind c)]"

definition columns_of :: "bool \<Rightarrow> string \<Rightarrow> catalog \<Rightarrow> pyval list list" where
  "columns_of ordered t cat =
     map column_row
       ((if ordered then sort_key cd_ordinal else id)
          (filter (\<lambda>c. cd_table c = t) (cat_columns cat)))"

definition constraints_of :: "string \<Rightarrow> catalog \<Rightarrow> pyval list list" where
  "constraints_of t cat = map constraint_row (filter (\<lambda>c. ct_table c = t) (cat_constraints cat))"

fun run_command :: "pyval list option \<Rightarrow> command \<Rightarrow> session \<Rightarrow> exn + session" where
  "run_command vars Empty s = Inr s"
| "run_command vars (Begin ro) s =
     Inr (if in_block s then s\<lparr>result_set := None\<rparr>
          else s\<lparr>in_block := True, read_only := ro, result_set := None\<rparr>)"
| "run_command vars Commit s =
     Inr (s\<lparr>durable := seen s, in_block := False, read_only := False, result_set := None\<rparr>)"
| "run_command vars Rollback s =
     Inr (s\<lparr>seen := durable s, in_block := False, read_only := False, result_set := None\<rparr>)"
| "run_command vars (DropTable n) s =
     (if in_block s \<and> read_only s
      then Inl (DbError ''cannot execute DROP TABLE in a read-only transaction'')
      else if in_block s then Inr (s\<lparr>seen := drop_table n (seen s), result_set := None\<rparr>)
      else Inr (s\<lparr>durable := drop_table n (seen s), seen := drop_table n (seen s),
                   result_set := None\<rparr>))"
| "run_command vars SelectTables s =
     Inr (s\<lparr>result_set := Some (map (\<lambda>t. [PStr (fst t), snd t]) (cat_tables (seen s)))\<rparr>)"
| "run_command vars (SelectColumns ordered) s =
     (case vars of
        Some [PStr t] \<Rightarrow> Inr (s\<lparr>result_set := Some (columns_of ordered t (seen s))\<rparr>)
      | _ \<Rightarrow> Inl (DbError ''syntax error''))"
| "run_command vars SelectConstraints s =
     (case vars of
        Some [PStr t] \<Rightarrow> Inr (s\<lparr>result_set := Some (constraints_of t (seen s))\<rparr>)
      | _ \<Rightarrow> Inl (DbError ''syntax error''))"
| "run_command vars SelectOther s = Inr (s\<lparr>result_set := Some []\<rparr>)"
| "run_command vars Unknown s = Inl (DbError ''syntax error'')"

fun run_commands :: "pyval list option \<Rightarrow> command list \<Rightarrow> session \<Rightarrow> (exn + unit) \<times> session" where
  "run_commands vars [] s = (Inr (), s)"
| "run_commands vars (c # cs) s =
     (case run_command vars c s of
        Inl e \<Rightarrow> (Inl e, s)
      | Inr s1 \<Rightarrow> run_commands vars cs s1)"

definition postgres :: "session driver" where
  "postgres =
     \<lparr>getconn = (\<lambda>s. (Inr 1, s)),
      putconn = (\<lambda>c s. (Inr (), s)),
      cursor = (\<lambda>c s. (Inr 1, s)),
      execute = (\<lambda>k q vars. run_commands vars (parse q)),
      fetchall = (\<lambda>k s. case result_set s of
                          None \<Rightarrow> (Inl (DbError ''no results to fetch''), s)
                        | Some rows \<Rightarrow> (Inr rows, s)),
      description = (\<lambda>k s. map_option (\<lambda>rows. []) (result_set s)),
      close = (\<lambda>k s. (Inr (), s))\<rparr>"

definition fresh :: "catalog \<Rightarrow> session" where
  \<comment> \<open>an idle session on a database with this catalog\<close>
  "fresh cat = \<lparr>durable = cat, seen = cat, in_block = False, read_only = False, result_set = None\<rparr>"

definition victim_db :: catalog where
  \<comment> \<open>one table, \<open>victim (id int)\<close>\<close>
  "victim_db =
     \<lparr>cat_tables = [(''victim'', PNone)],
      cat_columns = [\<lparr>cd_table = ''victim'', cd_name = ''id'', cd_type = SqlInt,
                       cd_not_null = False, cd_ordinal = 1, cd_comment = PNone\<rparr>],
      cat_constraints = []\<rparr>"

definition empty_db :: catalog where
  "empty_db = \<lparr>cat_tables = [], cat_columns = [], cat_constraints = []\<rparr>"


subsection \<open>Properties of computations\<close>

text \<open>
  Three properties carry the proofs through the nested blocks of a handler:
  \<open>emits P m\<close>, every event that \<open>m\<close> adds to the trace satisfies \<open>P\<close>;
  \<open>keeps_conn m\<close>, \<open>m\<close> leaves the local \<open>conn\<close> as it found it;
  \<open>yields Q S m\<close>, the events that \<open>m\<close> adds and that satisfy \<open>Q\<close> form a list in \<open>S\<close>.
\<close>

definition emits :: "(event \<Rightarrow> bool) \<Rightarrow> ('w, 'a) py \<Rightarrow> bool" where
  "emits P m = (\<forall>f. \<exists>evs. trace (snd (m f)) = trace f @ evs \<and> list_all P evs)"

definition keeps_conn :: "('w, 'a) py \<Rightarrow> bool" where
  "keeps_conn m = (\<forall>f. conn_var (snd (m f)) = conn_var f)"

definition yields :: "(event \<Rightarrow> bool) \<Rightarrow> (event list \<Rightarrow> bool) \<Rightarrow> ('w, 'a) py \<Rightarrow> bool" where
  "yields Q S m = (\<forall>f. \<exists>l. S l \<and> filter Q (trace (snd (m f))) = filter Q (trace f) @ l)"

text \<open>The statements of one run of the \<open>query\<close> tool, and of one run of \<open>handle_read_resource\<close>.\<close>

definition query_statements :: "string \<Rightarrow> event list \<Rightarrow> bool" where
  "query_statements sql l =
     (l = [] \<or> (\<exists>k. l = [(Execute k begin_sql None, False)])
      \<or> (\<exists>k b c. l = [(Execute k begin_sql None, True), (Execute k sql None, b),
             (Execute k rollback_sql None, c)]))"

definition catalog_statements :: "string \<Rightarrow> event list \<Rightarrow> bool" where
  "catalog_statements t l =
     (l = [] \<or> (\<exists>k b. l = [(Execute k columns_sql (Some [PStr t]), b)])
      \<or> (\<exists>k b. l = [(Execute k columns_sql (Some [PStr t]), True),
             (Execute k constraints_sql (Some [PStr t]), b)]))"

text \<open>The pool calls of one invocation: none, a failed acquire, or an acquire and its release.\<close>

definition pool_shape :: "event list \<Rightarrow> bool" where
  "pool_shape l =
     (l = [] \<or> l = [(GetConn, False)] \<or> (\<exists>c b. l = [(GetConn, True), (PutConn c, b)]))"

subsection \<open>Rules for the blocks of a handler\<close>

lemma emitsI: "(\<And>f. \<exists>evs. trace (snd (m f)) = trace f @ evs \<and> list_all P evs) \<Longrightarrow> emits P m"
  by (simp add: emits_def)

lemma emitsD: "emits P m \<Longrightarrow> \<exists>evs. trace (snd (m f)) = trace f @ evs \<and> list_all P evs"
  by (simp add: emits_def)

lemma emits_ret: "emits P (ret x)"
  by (simp add: emits_def ret_def)

lemma emits_raise: "emits P (raise e)"
  by (simp add: emits_def raise_def)

lemma emits_lift: "emits P (lift r)"
  by (simp add: emits_def lift_def)

lemma emits_log: "P (Log l t, True) \<Longrightarrow> emits P (log l t)"
  by (simp add: emits_def log_def)

lemma emits_set_conn: "emits P (set_conn c)"
  by (simp add: emits_def set_conn_def)

lemma emits_get_conn: "emits P get_conn"
  by (simp add: emits_def get_conn_def split: option.splits)

lemma emits_invoke: "P (c, True) \<Longrightarrow> P (c, False) \<Longrightarrow> emits P (invoke c op)"
proof (rule emitsI)
  fix f :: "'a frame"
  obtain r w1 where "op (world f) = (r, w1)" by (cases "op (world f)")
  moreover assume "P (c, True)" "P (c, False)"
  ultimately show "\<exists>evs. trace (snd (invoke c op f)) = trace f @ evs \<and> list_all P evs"
    by (cases "isl r") (simp_all add: invoke_def)
qed

lemma emits_bind:
  assumes "emits P m" and "\<And>x. emits P (k x)"
  shows "emits P (bind m k)"
proof (rule emitsI)
  fix f
  obtain r f1 where m: "m f = (r, f1)" by (cases "m f")
  from emitsD [OF assms(1), of f] m obtain e1 where
    e1: "trace f1 = trace f @ e1" "list_all P e1" by auto
  show "\<exists>evs. trace (snd (bind m k f)) = trace f @ evs \<and> list_all P evs"
  proof (cases r)
    case (Inl e)
    with m e1 show ?thesis by (simp add: bind_def)
  next
    case (Inr x)
    from emitsD [OF assms(2), of x f1] obtain e2 where
      "trace (snd (k x f1)) = trace f1 @ e2" "list_all P e2" by auto
    with m e1 Inr show ?thesis by (simp add: bind_def)
  qed
qed

lemma emits_try_finally:
  assumes "emits P m" and "emits P fin"
  shows "emits P (try_finally m fin)"
proof (rule emitsI)
  fix f
  obtain r f1 where m: "m f = (r, f1)" by (cases "m f")
  obtain u f2 where fin: "fin f1 = (u, f2)" by (cases "fin f1")
  from emitsD [OF assms(1), of f] m obtain e1 where
    e1: "trace f1 = trace f @ e1" "list_all P e1" by auto
  from emitsD [OF assms(2), of f1] fin obtain e2 where
    e2: "trace f2 = trace f1 @ e2" "list_all P e2" by auto
  from m fin e1 e2
  show "\<exists>evs. trace (snd (try_finally m fin f)) = trace f @ evs \<and> list_all P evs"
    by (cases u) (simp_all add: try_finally_def)
qed

lemma emits_except_db:
  assumes "emits P m" and "\<And>msg. emits P (h msg)"
  shows "emits P (except_db m h)"
proof (rule emitsI)
  fix f
  obtain r f1 where m: "m f = (r, f1)" by (cases "m f")
  from emitsD [OF assms(1), of f] m obtain e1 where
    e1: "trace f1 = trace f @ e1" "list_all P e1" by auto
  show "\<exists>evs. trace (snd (except_db m h f)) = trace f @ evs \<and> list_all P evs"
  proof (cases "\<exists>msg. r = Inl (DbError msg)")
    case True
    then obtain msg where r: "r = Inl (DbError msg)" by blast
    from emitsD [OF assms(2), of msg f1] obtain e2 where
      "trace (snd (h msg f1)) = trace f1 @ e2" "list_all P e2" by auto
    with m e1 r show ?thesis by (simp add: except_db_def)
  next
    case False
    with m have "except_db m h f = (r, f1)"
      by (simp add: except_db_def split: sum.splits exn.splits)
    with e1 show ?thesis by simp
  qed
qed

lemma emits_with_cursor:
  assumes "\<And>c b. P (Cursor c, b)" and "\<And>k b. P (Close k, b)" and "\<And>k. emits P (body k)"
  shows "emits P (with_cursor d body)"
  unfolding with_cursor_def
  by (intro emits_bind emits_get_conn emits_invoke emits_try_finally assms)

lemma silent_filter:
  assumes "emits (\<lambda>e. \<not> Q e) m"
  shows "filter Q (trace (snd (m f))) = filter Q (trace f)"
proof -
  from emitsD [OF assms, of f] obtain evs where
    "trace (snd (m f)) = trace f @ evs" "list_all (\<lambda>e. \<not> Q e) evs" by auto
  then show ?thesis by (simp add: list_all_iff)
qed

lemma yieldsI: "(\<And>f. \<exists>l. S l \<and> filter Q (trace (snd (m f))) = filter Q (trace f) @ l) \<Longrightarrow> yields Q S m"
  by (simp add: yields_def)

lemma yieldsD: "yields Q S m \<Longrightarrow> \<exists>l. S l \<and> filter Q (trace (snd (m f))) = filter Q (trace f) @ l"
  by (simp add: yields_def)

lemma keeps_ret: "keeps_conn (ret x)"
  by (simp add: keeps_conn_def ret_def)

lemma keeps_raise: "keeps_conn (raise e)"
  by (simp add: keeps_conn_def raise_def)

lemma keeps_lift: "keeps_conn (lift r)"
  by (simp add: keeps_conn_def lift_def)

lemma keeps_log: "keeps_conn (log l t)"
  by (simp add: keeps_conn_def log_def)

lemma keeps_get_conn: "keeps_conn get_conn"
  by (simp add: keeps_conn_def get_conn_def split: option.splits)

lemma keeps_invoke: "keeps_conn (invoke c op)"
  by (simp add: keeps_conn_def invoke_def split: prod.splits)

lemma keeps_bind:
  assumes "keeps_conn m" and "\<And>x. keeps_conn (k x)"
  shows "keeps_conn (bind m k)"
  unfolding keeps_conn_def
proof
  fix f
  obtain r f1 where m: "m f = (r, f1)" by (cases "m f")
  with assms(1) have c1: "conn_var f1 = conn_var f"
    by (auto simp add: keeps_conn_def dest: spec [of _ f])
  show "conn_var (snd (bind m k f)) = conn_var f"
  proof (cases r)
    case (Inl e)
    with m c1 show ?thesis by (simp add: bind_def)
  next
    case (Inr x)
    from assms(2) [of x] have "conn_var (snd (k x f1)) = conn_var f1"
      by (simp add: keeps_conn_def)
    with m c1 Inr show ?thesis by (simp add: bind_def)
  qed
qed

lemma keeps_try_finally:
  assumes "keeps_conn m" and "keeps_conn fin"
  shows "keeps_conn (try_finally m fin)"
  unfolding keeps_conn_def
proof
  fix f
  obtain r f1 where m: "m f = (r, f1)" by (cases "m f")
  obtain u f2 where fin: "fin f1 = (u, f2)" by (cases "fin f1")
  from assms(1) m have "conn_var f1 = conn_var f"
    by (auto simp add: keeps_conn_def dest: spec [of _ f])
  moreover from assms(2) fin have "conn_var f2 = conn_var f1"
    by (auto simp add: keeps_conn_def dest: spec [of _ f1])
  ultimately show "conn_var (snd (try_finally m fin f)) = conn_var f"
    using m fin by (cases u) (simp_all add: try_finally_def)
qed

lemma keeps_except_db:
  assumes "keeps_conn m" and "\<And>msg. keeps_conn (h msg)"
  shows "keeps_conn (except_db m h)"
  unfolding keeps_conn_def
proof
  fix f
  obtain r f1 where m: "m f = (r, f1)" by (cases "m f")
  from assms(1) m have c1: "conn_var f1 = conn_var f"
    by (auto simp add: keeps_conn_def dest: spec [of _ f])
  show "conn_var (snd (except_db m h f)) = conn_var f"
  proof (cases "\<exists>msg. r = Inl (DbError msg)")
    case True
    then obtain msg where r: "r = Inl (DbError msg)" by blast
    from assms(2) [of msg] have "conn_var (snd (h msg f1)) = conn_var f1"
      by (simp add: keeps_conn_def)
    with m c1 r show ?thesis by (simp add: except_db_def)
  next
    case False
    with m have "except_db m h f = (r, f1)"
      by (simp add: except_db_def split: sum.splits exn.splits)
    with c1 show ?thesis by simp
  qed
qed

lemma keeps_with_cursor:
  assumes "\<And>k. keeps_conn (body k)"
  shows "keeps_conn (with_cursor d body)"
  unfolding with_cursor_def
  by (intro keeps_bind keeps_get_conn keeps_invoke keeps_try_finally assms)

lemma yields_silent:
  assumes "emits (\<lambda>e. \<not> Q e) m" and "S []"
  shows "yields Q S m"
  using assms by (simp add: yields_def silent_filter)

lemma yields_after:
  assumes "emits (\<lambda>e. \<not> Q e) m" and "\<And>x. yields Q S (k x)" and "S []"
  shows "yields Q S (bind m k)"
proof (rule yieldsI)
  fix f
  obtain r f1 where m: "m f = (r, f1)" by (cases "m f")
  from silent_filter [OF assms(1), of f] m
  have e1: "filter Q (trace f1) = filter Q (trace f)" by simp
  show "\<exists>l. S l \<and> filter Q (trace (snd (bind m k f))) = filter Q (trace f) @ l"
  proof (cases r)
    case (Inl e)
    with m e1 assms(3) show ?thesis by (simp add: bind_def)
  next
    case (Inr x)
    from yieldsD [OF assms(2), of x f1] e1 m Inr show ?thesis by (simp add: bind_def)
  qed
qed

lemma yields_try_finally:
  assumes "yields Q S m" and "emits (\<lambda>e. \<not> Q e) fin"
  shows "yields Q S (try_finally m fin)"
proof (rule yieldsI)
  fix f
  obtain r f1 where m: "m f = (r, f1)" by (cases "m f")
  obtain u f2 where fin: "fin f1 = (u, f2)" by (cases "fin f1")
  from silent_filter [OF assms(2), of f1] fin
  have "filter Q (trace f2) = filter Q (trace f1)" by simp
  moreover from m fin have "trace (snd (try_finally m fin f)) = trace f2"
    by (cases u) (simp_all add: try_finally_def)
  ultimately show "\<exists>l. S l \<and> filter Q (trace (snd (try_finally m fin f))) = filter Q (trace f) @ l"
    using yieldsD [OF assms(1), of f] m by simp
qed

lemma yields_except_db:
  assumes "yields Q S m" and "\<And>msg. emits (\<lambda>e. \<not> Q e) (h msg)"
  shows "yields Q S (except_db m h)"
proof (rule yieldsI)
  fix f
  obtain r f1 where m: "m f = (r, f1)" by (cases "m f")
  from yieldsD [OF assms(1), of f] m obtain l where
    l: "S l" "filter Q (trace f1) = filter Q (trace f) @ l" by auto
  show "\<exists>l. S l \<and> filter Q (trace (snd (except_db m h f))) = filter Q (trace f) @ l"
  proof (cases "\<exists>msg. r = Inl (DbError msg)")
    case True
    then obtain msg where r: "r = Inl (DbError msg)" by blast
    from silent_filter [OF assms(2), of msg f1] m r l show ?thesis
      by (auto simp add: except_db_def)
  next
    case False
    with m have "except_db m h f = (r, f1)"
      by (simp add: except_db_def split: sum.splits exn.splits)
    with l show ?thesis by auto
  qed
qed


lemma emits_get_description: "emits P (get_description d k)"
  by (simp add: emits_def get_description_def)

lemma keeps_get_description: "keeps_conn (get_description d k)"
  by (simp add: keeps_conn_def get_description_def)

lemma emits_acquire: "P (GetConn, True) \<Longrightarrow> P (GetConn, False) \<Longrightarrow> emits P (acquire d)"
  unfolding acquire_def by (intro emits_bind emits_invoke emits_set_conn)

lemma emits_release: "(\<And>c b. P (PutConn c, b)) \<Longrightarrow> emits P (release d)"
  unfolding release_def by (intro emits_bind emits_invoke emits_get_conn)

lemma keeps_release: "keeps_conn (release d)"
  unfolding release_def by (intro keeps_bind keeps_invoke keeps_get_conn)

lemmas emits_rules = emits_bind emits_try_finally emits_except_db emits_with_cursor
  emits_ret emits_raise emits_lift emits_log emits_set_conn emits_get_conn emits_invoke
  emits_get_description emits_acquire emits_release

lemmas keeps_rules = keeps_bind keeps_try_finally keeps_except_db keeps_with_cursor
  keeps_ret keeps_raise keeps_lift keeps_log keeps_get_conn keeps_invoke keeps_get_description

lemma yields_weaken: "yields Q S m \<Longrightarrow> (\<And>l. S l \<Longrightarrow> T l) \<Longrightarrow> yields Q T m"
  by (meson yields_def)

lemma yields_invoke_bind:
  fixes op :: "'w \<Rightarrow> (exn + 'x) \<times> 'w"
  assumes "Q (c, True)" and "Q (c, False)" and "\<And>x. yields Q S (k x)"
  shows "yields Q (\<lambda>l. l = [(c, False)] \<or> (\<exists>a. S a \<and> l = (c, True) # a)) (bind (invoke c op) k)"
proof (rule yieldsI)
  fix f :: "'w frame"
  obtain r w1 where op: "op (world f) = (r, w1)" by (cases "op (world f)")
  let ?f1 = "f\<lparr>world := w1, trace := trace f @ [(c, \<not> isl r)]\<rparr>"
  show "\<exists>l. (l = [(c, False)] \<or> (\<exists>a. S a \<and> l = (c, True) # a)) \<and>
       filter Q (trace (snd (bind (invoke c op) k f))) = filter Q (trace f) @ l"
  proof (cases r)
    case (Inl e)
    with op assms(2) show ?thesis by (simp add: bind_def invoke_def)
  next
    case (Inr x)
    from yieldsD [OF assms(3), of x ?f1] obtain a where
      "S a" "filter Q (trace (snd (k x ?f1))) = filter Q (trace ?f1) @ a" by auto
    with op Inr assms(1) show ?thesis by (simp add: bind_def invoke_def)
  qed
qed

lemma yields_then_invoke:
  assumes "yields Q S m" and "Q (c, True)" and "Q (c, False)"
  shows "yields Q (\<lambda>l. \<exists>a b. S a \<and> l = a @ [(c, b)]) (try_finally m (invoke c op))"
proof (rule yieldsI)
  fix f
  obtain r f1 where m: "m f = (r, f1)" by (cases "m f")
  obtain u w2 where op: "op (world f1) = (u, w2)" by (cases "op (world f1)")
  from yieldsD [OF assms(1), of f] m obtain a where
    a: "S a" "filter Q (trace f1) = filter Q (trace f) @ a" by auto
  from m op have "trace (snd (try_finally m (invoke c op) f)) = trace f1 @ [(c, \<not> isl u)]"
    by (cases u) (simp_all add: try_finally_def invoke_def)
  with a assms(2,3) show "\<exists>l. (\<exists>a b. S a \<and> l = a @ [(c, b)]) \<and>
       filter Q (trace (snd (try_finally m (invoke c op) f))) = filter Q (trace f) @ l"
    by (cases "isl u") auto
qed

lemma run_query_statements:
  "yields is_statement
     (\<lambda>l. \<exists>b c. l = [(Execute k sql None, b), (Execute k rollback_sql None, c)])
     (run_query d k sql)"
proof -
  have rest: "\<And>x::unit. yields is_statement (\<lambda>l. l = [])
       (bind (invoke (FetchAll k) (fetchall d k)) (\<lambda>results.
        bind (get_description d k) (\<lambda>ds.
        bind (lift (column_names ds)) (\<lambda>columns.
        bind (log Info (QueryDone (length results))) (\<lambda>_.
        ret [\<lparr>tc_type = ''text'',
              tc_text = ResultText
                \<lparr>qr_columns = columns,
                 qr_rows = map (\<lambda>row. py_dict (zip columns row)) results,
                 qr_row_count = length results\<rparr>\<rparr>])))))"
    by (rule yields_silent, (intro emits_rules; simp add: is_statement_def), simp)
  have "yields is_statement
     (\<lambda>l. \<exists>a b. (a = [(Execute k sql None, False)] \<or> (\<exists>a'. a' = [] \<and> a = (Execute k sql None, True) # a'))
         \<and> l = a @ [(Execute k rollback_sql None, b)])
     (run_query d k sql)"
    unfolding run_query_def
    by (rule yields_then_invoke, rule yields_invoke_bind, simp_all add: is_statement_def rest)
  then show ?thesis by (rule yields_weaken) auto
qed

lemma query_try_statements:
  "yields is_statement (query_statements sql)
     (bind (log Info (ExecutingQuery sql)) (\<lambda>_.
          try_finally
            (except_db
               (bind (acquire d) (\<lambda>_.
                with_cursor d (\<lambda>k.
                  bind (invoke (Execute k begin_sql None) (execute d k begin_sql None)) (\<lambda>_.
                  run_query d k sql))))
               (\<lambda>msg.
                  bind (log Error (QueryFailed msg)) (\<lambda>_.
                  ret [\<lparr>tc_type = ''text'', tc_text = QueryFailedText msg\<rparr>])))
            (release d)))"
proof -
  have body: "\<And>k. yields is_statement (query_statements sql)
      (bind (invoke (Execute k begin_sql None) (execute d k begin_sql None)) (\<lambda>_. run_query d k sql))"
    by (rule yields_weaken, rule yields_invoke_bind [OF _ _ run_query_statements])
       (auto simp add: is_statement_def query_statements_def)
  have nil: "query_statements sql []" by (simp add: query_statements_def)
  have cur: "yields is_statement (query_statements sql)
      (with_cursor d (\<lambda>k.
         bind (invoke (Execute k begin_sql None) (execute d k begin_sql None)) (\<lambda>_. run_query d k sql)))"
    unfolding with_cursor_def
  proof (rule yields_after)
    show "emits (\<lambda>e. \<not> is_statement e) get_conn" by (rule emits_get_conn)
    show "query_statements sql []" by (rule nil)
    fix c
    show "yields is_statement (query_statements sql)
       (bind (invoke (Cursor c) (cursor d c)) (\<lambda>k.
        try_finally
          (bind (invoke (Execute k begin_sql None) (execute d k begin_sql None))
             (\<lambda>_. run_query d k sql))
          (invoke (Close k) (close d k))))"
    proof (rule yields_after)
      show "emits (\<lambda>e. \<not> is_statement e) (invoke (Cursor c) (cursor d c))"
        by (rule emits_invoke; simp add: is_statement_def)
      show "query_statements sql []" by (rule nil)
      fix k
      show "yields is_statement (query_statements sql)
         (try_finally
            (bind (invoke (Execute k begin_sql None) (execute d k begin_sql None))
               (\<lambda>_. run_query d k sql))
            (invoke (Close k) (close d k)))"
        by (rule yields_try_finally [OF body]) (rule emits_invoke; simp add: is_statement_def)
    qed
  qed
  have acq: "yields is_statement (query_statements sql)
      (bind (acquire d) (\<lambda>_.
         with_cursor d (\<lambda>k.
           bind (invoke (Execute k begin_sql None) (execute d k begin_sql None))
             (\<lambda>_. run_query d k sql))))"
    by (rule yields_after) (rule emits_acquire cur nil; simp add: is_statement_def)+
  have guarded: "yields is_statement (query_statements sql)
      (try_finally
         (except_db
            (bind (acquire d) (\<lambda>_.
               with_cursor d (\<lambda>k.
                 bind (invoke (Execute k begin_sql None) (execute d k begin_sql None))
                   (\<lambda>_. run_query d k sql))))
            (\<lambda>msg.
               bind (log Error (QueryFailed msg)) (\<lambda>_.
               ret [\<lparr>tc_type = ''text'', tc_text = QueryFailedText msg\<rparr>])))
         (release d))"
  proof (rule yields_try_finally)
    show "emits (\<lambda>e. \<not> is_statement e) (release d)"
      by (rule emits_release) (simp add: is_statement_def)
    show "yields is_statement (query_statements sql)
      (except_db
         (bind (acquire d) (\<lambda>_.
            with_cursor d (\<lambda>k.
              bind (invoke (Execute k begin_sql None) (execute d k begin_sql None))
                (\<lambda>_. run_query d k sql))))
         (\<lambda>msg.
            bind (log Error (QueryFailed msg)) (\<lambda>_.
            ret [\<lparr>tc_type = ''text'', tc_text = QueryFailedText msg\<rparr>])))"
      by (rule yields_except_db [OF acq]) (intro emits_rules; simp add: is_statement_def)
  qed
  show ?thesis
  proof (rule yields_after)
    show "emits (\<lambda>e. \<not> is_statement e) (log Info (ExecutingQuery sql))"
      by (rule emits_log) (simp add: is_statement_def)
  qed (rule guarded nil)+
qed


subsection \<open>Reading the statements\<close>

lemma small_letters:
  "char_of (97::nat) = CHR ''a''"
  "char_of (98::nat) = CHR ''b''"
  "char_of (99::nat) = CHR ''c''"
  "char_of (100::nat) = CHR ''d''"
  "char_of (101::nat) = CHR ''e''"
  "char_of (102::nat) = CHR ''f''"
  "char_of (103::nat) = CHR ''g''"
  "char_of (104::nat) = CHR ''h''"
  "char_of (105::nat) = CHR ''i''"
  "char_of (106::nat) = CHR ''j''"
  "char_of (107::nat) = CHR ''k''"
  "char_of (108::nat) = CHR ''l''"
  "char_of (109::nat) = CHR ''m''"
  "char_of (110::nat) = CHR ''n''"
  "char_of (111::nat) = CHR ''o''"
  "char_of (112::nat) = CHR ''p''"
  "char_of (113::nat) = CHR ''q''"
  "char_of (114::nat) = CHR ''r''"
  "char_of (115::nat) = CHR ''s''"
  "char_of (116::nat) = CHR ''t''"
  "char_of (117::nat) = CHR ''u''"
  "char_of (118::nat) = CHR ''v''"
  "char_of (119::nat) = CHR ''w''"
  "char_of (120::nat) = CHR ''x''"
  "char_of (121::nat) = CHR ''y''"
  "char_of (122::nat) = CHR ''z''"
  by code_simp+

lemma split_space_not_Nil: "split_space s \<noteq> []"
  by (induction s) (auto split: list.splits)

lemma split_space_append:
  "isspace c \<Longrightarrow> split_space (a @ c # b) = split_space a @ split_space b"
proof (induction a)
  case Nil
  then show ?case by simp
next
  case (Cons x a)
  then show ?case
    using split_space_not_Nil [of a] by (cases "split_space a") auto
qed

lemma tokens_append: "isspace c \<Longrightarrow> tokens (a @ c # b) = tokens a @ tokens b"
  by (simp add: tokens_def split_space_append)

lemma isspace_newline: "isspace newline"
  by (simp add: isspace_def newline_def)

lemma tokens_join_lines: "tokens (join_lines (l # ls)) = concat (map tokens (l # ls))"
proof (induction ls arbitrary: l)
  case Nil
  then show ?case by simp
next
  case (Cons l' ls)
  then show ?case by (simp add: tokens_append [OF isspace_newline])
qed

lemma split_semi_whole: "CHR '';'' \<notin> set q \<Longrightarrow> split_semi q = [q]"
proof (induction q)
  case Nil
  then show ?case by simp
next
  case (Cons c q)
  then show ?case by auto
qed

lemma set_join_lines: "set (join_lines (l # ls)) \<subseteq> insert newline (\<Union> (set ` set (l # ls)))"
proof (induction ls arbitrary: l)
  case Nil
  then show ?case by auto
next
  case (Cons l' ls)
  from Cons [of l'] show ?case by auto
qed

lemmas token_defs = tokens_def lower_def lower_char_def isspace_def Let_def small_letters
lemmas parse_defs = parse_def classify_def relation_def token_defs newline_def

lemma parse_begin: "parse ''BEGIN TRANSACTION READ ONLY'' = [Begin True]"
  by (simp add: parse_defs)
lemma parse_rollback: "parse ''ROLLBACK'' = [Rollback]"
  by (simp add: parse_defs)
lemma parse_embedded_commit:
  "parse ''SELECT 1; COMMIT; DROP TABLE victim'' = [SelectOther, Commit, DropTable ''victim'']"
  by (simp add: parse_defs)

lemma parse_constraints_sql: "parse constraints_sql = [SelectConstraints]"
proof -
  have "CHR '';'' \<notin> set constraints_sql"
    unfolding constraints_sql_def
    using set_join_lines by (rule contra_subsetD) (simp add: newline_def)
  then have "parse constraints_sql = [classify (tokens constraints_sql)]"
    by (simp add: parse_def split_semi_whole)
  also have "tokens constraints_sql = [''select'', ''conname'', ''as'', ''constraint_name,'', ''contype'', ''as'',
      ''constraint_type'', ''from'', ''pg_constraint'', ''c'', ''join'', ''pg_class'', ''t'', ''on'',
      ''c.conrelid'', ''='', ''t.oid'', ''where'', ''t.relname'', ''='', ''%s'']"
    unfolding constraints_sql_def tokens_join_lines by (simp add: token_defs)
  finally show ?thesis by (simp add: classify_def relation_def)
qed

lemma parse_columns_sql: "parse columns_sql = [SelectColumns True]"
proof -
  have "CHR '';'' \<notin> set columns_sql"
    unfolding columns_sql_def
    using set_join_lines by (rule contra_subsetD) (simp add: newline_def)
  then have "parse columns_sql = [classify (tokens columns_sql)]"
    by (simp add: parse_def split_semi_whole)
  also have "tokens columns_sql = [''select'', ''column_name,'', ''data_type,'', ''is_nullable,'',
      ''col_description('', ''(quote_ident(table_schema)'', ''||'', [CHR 0x27, CHR ''.'', CHR 0x27], ''||'',
      ''quote_ident(table_name))::regclass,'', ''ordinal_position'', '')'', ''as'', ''description'',
      ''from'', ''information_schema.columns'', ''where'', ''table_name'', ''='', ''%s'',
      ''order'', ''by'', ''ordinal_position'']"
    unfolding columns_sql_def tokens_join_lines by (simp add: token_defs)
  finally show ?thesis by (simp add: classify_def relation_def)
qed

subsection \<open>The read-only protocol of the \<open>query\<close> tool\<close>

lemma run_handler_trace:
  assumes "yields Q S m" and "run_handler m w = (r, w', tr)"
  shows "S (filter Q tr)"
proof -
  let ?f = "\<lparr>world = w, trace = [], conn_var = None\<rparr>"
  from assms(2) have "tr = trace (snd (m ?f))"
    by (simp add: run_handler_def split: prod.splits)
  with yieldsD [OF assms(1), of ?f] show ?thesis by auto
qed

lemma call_tool_accepted:
  assumes "arguments ''sql'' = Some (PStr s)" and "strip s \<noteq> []"
    and "startswith (lower (strip s)) ''select''"
  shows "call_tool d ''query'' arguments =
     bind (log Info (ExecutingQuery (strip s))) (\<lambda>_.
          try_finally
            (except_db
               (bind (acquire d) (\<lambda>_.
                with_cursor d (\<lambda>k.
                  bind (invoke (Execute k begin_sql None) (execute d k begin_sql None)) (\<lambda>_.
                  run_query d k (strip s)))))
               (\<lambda>msg.
                  bind (log Error (QueryFailed msg)) (\<lambda>_.
                  ret [\<lparr>tc_type = ''text'', tc_text = QueryFailedText msg\<rparr>])))
            (release d))"
  using assms by (simp add: call_tool_def get_sql_def fun_eq_iff bind_def lift_def)

lemma strip_select1: "strip ''select 1'' = ''select 1''"
  by code_simp

lemma lower_select1: "lower ''select 1'' = ''select 1''"
  by code_simp

lemmas py_defs = bind_def ret_def raise_def lift_def invoke_def log_def try_finally_def
  except_db_def set_conn_def get_conn_def with_cursor_def release_def acquire_def run_handler_def
  get_description_def

lemmas scripted_defs = scripted_def answer_def answer_rows_def next_resp_def idle_def

lemma select1_run:
  "handle_call_tool scripted ''query'' [''sql'' \<mapsto> PStr ''select 1''] idle =
     (Inr [\<lparr>tc_type = ''text'',
           tc_text = ResultText \<lparr>qr_columns = [], qr_rows = [], qr_row_count = 0\<rparr>\<rparr>],
      idle,
      [(Log Info (ExecutingQuery ''select 1''), True), (GetConn, True), (Cursor 1, True),
       (Execute 1 begin_sql None, True), (Execute 1 ''select 1'' None, True),
       (FetchAll 1, True), (Log Info (QueryDone 0), True),
       (Execute 1 rollback_sql None, True), (Close 1, True), (PutConn 1, True)])"
  by (simp add: handle_call_tool_def call_tool_def get_sql_def strip_select1 lower_select1
      startswith_def run_query_def column_names_def py_defs scripted_defs)

text \<open>
  Whatever the driver does, the statements that one run of the \<open>query\<close> tool sends through
  \<open>cur.execute\<close> for an accepted \<open>sql\<close> are: none, when no connection or cursor was
  obtained; the read-only \<open>BEGIN\<close> alone, when it raised; or the \<open>BEGIN\<close>, the trimmed \<open>sql\<close>
  and the \<open>ROLLBACK\<close>, in this order, whether or not the statement or the fetch raised.
\<close>

lemma readonly_protocol:
  assumes "arguments ''sql'' = Some (PStr s)" and "strip s \<noteq> []"
    and "startswith (lower (strip s)) ''select''"
    and "handle_call_tool d ''query'' arguments w = (r, w', tr)"
  shows "(statements tr = [] \<or> statements tr = [(''BEGIN TRANSACTION READ ONLY'', False)]
          \<or> (\<exists>b c. statements tr =
                [(''BEGIN TRANSACTION READ ONLY'', True), (strip s, b), (''ROLLBACK'', c)]))
       \<and> ((''BEGIN TRANSACTION READ ONLY'', True) \<in> set (statements tr) \<longrightarrow>
            (\<exists>c. last (statements tr) = (''ROLLBACK'', c)))"
proof -
  from assms(4) have "run_handler (call_tool d ''query'' arguments) w = (r, w', tr)"
    by (simp add: handle_call_tool_def)
  then have "query_statements (strip s) (filter is_statement tr)"
    unfolding call_tool_accepted [of arguments s, OF assms(1-3)]
    by (rule run_handler_trace [OF query_try_statements])
  then have "statements tr = [] \<or> statements tr = [(''BEGIN TRANSACTION READ ONLY'', False)]
      \<or> (\<exists>b c. statements tr =
            [(''BEGIN TRANSACTION READ ONLY'', True), (strip s, b), (''ROLLBACK'', c)])"
    by (auto simp add: query_statements_def statements_def statement_text_def
        begin_sql_def rollback_sql_def)
  then show ?thesis by auto
qed

lemma readonly_protocol_example:
  "strip ''select 1'' \<noteq> [] \<and> startswith (lower (strip ''select 1'')) ''select''
   \<and> statements (snd (snd (handle_call_tool scripted ''query'' [''sql'' \<mapsto> PStr ''select 1''] idle)))
       = [(''BEGIN TRANSACTION READ ONLY'', True), (''select 1'', True), (''ROLLBACK'', True)]"
proof -
  have a: "[''sql'' \<mapsto> PStr ''select 1''] ''sql'' = Some (PStr ''select 1'')" by simp
  have b: "strip ''select 1'' \<noteq> []" by (simp add: strip_select1)
  have c: "startswith (lower (strip ''select 1'')) ''select''"
    by (simp add: strip_select1 lower_select1 startswith_def)
  have st: "statements (snd (snd (handle_call_tool scripted ''query'' [''sql'' \<mapsto> PStr ''select 1''] idle)))
       = [(''BEGIN TRANSACTION READ ONLY'', True), (''select 1'', True), (''ROLLBACK'', True)]"
    by (simp add: select1_run statements_def is_statement_def statement_text_def
        begin_sql_def rollback_sql_def)
  have run: "handle_call_tool scripted ''query'' [''sql'' \<mapsto> PStr ''select 1''] idle =
      (fst (handle_call_tool scripted ''query'' [''sql'' \<mapsto> PStr ''select 1''] idle),
       fst (snd (handle_call_tool scripted ''query'' [''sql'' \<mapsto> PStr ''select 1''] idle)),
       snd (snd (handle_call_tool scripted ''query'' [''sql'' \<mapsto> PStr ''select 1''] idle)))"
    by simp
  from readonly_protocol [of "[''sql'' \<mapsto> PStr ''select 1'']" "''select 1''", OF a b c run] b c st
  show ?thesis by simp
qed

subsection \<open>A statement that carries its own \<open>COMMIT\<close>\<close>

lemma strip_embedded_commit:
  "strip ''SELECT 1; COMMIT; DROP TABLE victim'' = ''SELECT 1; COMMIT; DROP TABLE victim''"
  by code_simp

lemma lower_embedded_commit:
  "lower ''SELECT 1; COMMIT; DROP TABLE victim'' = ''select 1; commit; drop table victim''"
  by code_simp

text \<open>
  C1: the claim has no accepted statement leave a committed change on the database. The
  text \<open>SELECT 1; COMMIT; DROP TABLE victim\<close> is accepted, since it starts with \<open>select\<close>. The
  handler sends the read-only \<open>BEGIN\<close>, the text and the \<open>ROLLBACK\<close>, and no \<open>COMMIT\<close> of its own;
  but the text's own \<open>COMMIT\<close> closes the read-only transaction, the \<open>DROP TABLE\<close> after it is
  durable, and the \<open>ROLLBACK\<close> finds nothing to undo. On the session double the handler returns
  a tool response (the fetch found no result set), and the table is gone from the catalog.
\<close>

theorem embedded_commit_drops_table:
  "strip ''SELECT 1; COMMIT; DROP TABLE victim'' \<noteq> []
   \<and> startswith (lower (strip ''SELECT 1; COMMIT; DROP TABLE victim'')) ''select''
   \<and> cat_tables (durable (fresh victim_db)) = [(''victim'', PNone)]
   \<and> handle_call_tool postgres ''query''
         [''sql'' \<mapsto> PStr ''SELECT 1; COMMIT; DROP TABLE victim''] (fresh victim_db) =
       (Inr [\<lparr>tc_type = ''text'', tc_text = QueryFailedText ''no results to fetch''\<rparr>],
        fresh empty_db,
        [(Log Info (ExecutingQuery ''SELECT 1; COMMIT; DROP TABLE victim''), True),
         (GetConn, True), (Cursor 1, True),
         (Execute 1 ''BEGIN TRANSACTION READ ONLY'' None, True),
         (Execute 1 ''SELECT 1; COMMIT; DROP TABLE victim'' None, True),
         (FetchAll 1, False),
         (Execute 1 ''ROLLBACK'' None, True),
         (Close 1, True),
         (Log Error (QueryFailed ''no results to fetch''), True),
         (PutConn 1, True)])
   \<and> cat_tables (durable (fresh empty_db)) = []"
  by (simp add: handle_call_tool_def call_tool_def get_sql_def strip_embedded_commit
      lower_embedded_commit startswith_def run_query_def py_defs postgres_def
      begin_sql_def rollback_sql_def parse_begin parse_rollback parse_embedded_commit
      fresh_def victim_db_def empty_db_def drop_table_def)


subsection \<open>Validation of the \<open>query\<close> tool's arguments\<close>

lemma strip_all_space:
  assumes "\<forall>c \<in> set s. isspace c"
  shows "strip s = []"
proof -
  have e: "dropWhile isspace s = []"
    using assms by (simp add: dropWhile_eq_Nil_conv)
  show ?thesis
    unfolding strip_def e by simp
qed

lemma strip_drop: "strip ''DROP TABLE users'' = ''DROP TABLE users''"
  by code_simp

lemma lower_drop: "lower ''DROP TABLE users'' = ''drop table users''"
  by code_simp

lemma strip_space: "strip '' '' = []"
  by code_simp

text \<open>
  C4: when \<open>arguments.sql\<close> is empty or consists of whitespace only, the \<open>query\<close> tool
  raises the empty-query \<open>ValueError\<close>, and it does so before any call on the pool or the
  database: the trace of the invocation is empty and the world is the one it started in.
\<close>

theorem empty_query_rejected:
  assumes "arguments ''sql'' = Some (PStr s)" and "\<forall>c \<in> set s. isspace c"
  shows "handle_call_tool d ''query'' arguments w = (Inl (ValueError EmptyQuery), w, [])"
  using assms
  by (simp add: handle_call_tool_def call_tool_def get_sql_def strip_all_space bind_def lift_def
      run_handler_def raise_def)

theorem empty_query_rejected_witness:
  "isspace (CHR '' '')
   \<and> handle_call_tool scripted ''query'' [''sql'' \<mapsto> PStr '' ''] idle
       = (Inl (ValueError EmptyQuery), idle, [])"
  using empty_query_rejected [of "[''sql'' \<mapsto> PStr '' '']" "'' ''" scripted idle]
  by (simp add: isspace_def)

text \<open>
  C9: when the arguments hold no \<open>sql\<close> key, the handler takes the empty string in its
  place: it raises the empty-query \<open>ValueError\<close> without any call on the pool, exactly as it
  does when \<open>sql\<close> is bound to the empty string.
\<close>

theorem missing_sql_is_empty:
  assumes "arguments ''sql'' = None"
  shows "handle_call_tool d ''query'' arguments w = (Inl (ValueError EmptyQuery), w, [])
       \<and> handle_call_tool d ''query'' arguments w
           = handle_call_tool d ''query'' (arguments(''sql'' \<mapsto> PStr [])) w"
  using assms
  by (simp add: handle_call_tool_def call_tool_def get_sql_def strip_def bind_def lift_def
      run_handler_def raise_def)

theorem missing_sql_is_empty_witness:
  "handle_call_tool scripted ''query'' Map.empty idle = (Inl (ValueError EmptyQuery), idle, [])
   \<and> handle_call_tool scripted ''query'' Map.empty idle
       = handle_call_tool scripted ''query'' [''sql'' \<mapsto> PStr []] idle"
  using missing_sql_is_empty [of Map.empty scripted idle]
  by auto

text \<open>
  C5, as stated: every \<open>sql\<close> that does not start with \<open>select\<close> after trimming is rejected
  with the non-select error. The empty string does not start with \<open>select\<close>, and the handler
  rejects it with the empty-query error instead: the check of line 155 comes first.
\<close>

theorem nonselect_rejected_counterexample:
  "\<not> startswith (lower (strip [])) ''select''
   \<and> fst (handle_call_tool scripted ''query'' [''sql'' \<mapsto> PStr []] idle)
       = Inl (ValueError EmptyQuery)
   \<and> fst (handle_call_tool scripted ''query'' [''sql'' \<mapsto> PStr []] idle)
       \<noteq> Inl (ValueError NonSelectQuery)"
  by (simp add: handle_call_tool_def call_tool_def get_sql_def strip_def lower_def startswith_def
      bind_def lift_def run_handler_def raise_def)

text \<open>
  C5, amended: every \<open>sql\<close> that after trimming is not empty and does not start with
  \<open>select\<close> (case-insensitively) is rejected with the non-select \<open>ValueError\<close>, before any
  call on the pool or the database.
\<close>

theorem nonselect_rejected:
  assumes "arguments ''sql'' = Some (PStr s)" and "strip s \<noteq> []"
    and "\<not> startswith (lower (strip s)) ''select''"
  shows "handle_call_tool d ''query'' arguments w = (Inl (ValueError NonSelectQuery), w, [])"
  using assms
  by (simp add: handle_call_tool_def call_tool_def get_sql_def bind_def lift_def
      run_handler_def raise_def)

theorem nonselect_rejected_witness:
  "strip ''DROP TABLE users'' \<noteq> []
   \<and> \<not> startswith (lower (strip ''DROP TABLE users'')) ''select''
   \<and> handle_call_tool scripted ''query'' [''sql'' \<mapsto> PStr ''DROP TABLE users''] idle
       = (Inl (ValueError NonSelectQuery), idle, [])"
  using nonselect_rejected
    [of "[''sql'' \<mapsto> PStr ''DROP TABLE users'']" "''DROP TABLE users''" scripted idle]
  by (simp add: strip_drop lower_drop startswith_def)

text \<open>
  C3, as stated: \<open>query\<close> with \<open>DROP TABLE users\<close> returns a tool response that carries the
  rejection. The handler raises instead (line 160): the outcome is the \<open>ValueError\<close>, not a
  returned list of text contents.
\<close>

theorem drop_table_counterexample:
  "isl (fst (handle_call_tool scripted ''query'' [''sql'' \<mapsto> PStr ''DROP TABLE users''] idle))
   \<and> fst (handle_call_tool scripted ''query'' [''sql'' \<mapsto> PStr ''DROP TABLE users''] idle)
       = Inl (ValueError NonSelectQuery)"
  by (simp add: handle_call_tool_def call_tool_def get_sql_def strip_drop lower_drop startswith_def
      bind_def lift_def run_handler_def raise_def)

text \<open>
  C3, amended: \<open>query\<close> with \<open>DROP TABLE users\<close> raises the non-select \<open>ValueError\<close> to the
  caller; no call reaches the pool or the database, so the world is unchanged. A tool name
  other than \<open>query\<close> raises the unknown-tool \<open>ValueError\<close>, again without any call.
\<close>

theorem drop_table_and_unknown_tool:
  "handle_call_tool d ''query'' [''sql'' \<mapsto> PStr ''DROP TABLE users''] w
     = (Inl (ValueError NonSelectQuery), w, [])
   \<and> (name \<noteq> ''query'' \<longrightarrow>
        handle_call_tool d name arguments w = (Inl (ValueError (UnknownTool name)), w, []))"
  by (simp add: handle_call_tool_def call_tool_def get_sql_def strip_drop lower_drop startswith_def
      bind_def lift_def run_handler_def raise_def)

theorem drop_table_and_unknown_tool_witness:
  "''delete_all'' \<noteq> ''query''
   \<and> handle_call_tool scripted ''delete_all'' Map.empty idle
       = (Inl (ValueError (UnknownTool ''delete_all'')), idle, [])
   \<and> handle_call_tool scripted ''query'' [''sql'' \<mapsto> PStr ''DROP TABLE users''] idle
       = (Inl (ValueError NonSelectQuery), idle, [])"
  using drop_table_and_unknown_tool [of scripted idle "''delete_all''" Map.empty]
  by simp


subsection \<open>Connections acquired and released\<close>

lemma try_finally_frame: "snd (try_finally m fin f) = snd (fin (snd (m f)))"
  by (simp add: try_finally_def split: prod.splits sum.splits)

lemma try_finally_cong: "m f = m' f' \<Longrightarrow> try_finally m fin f = try_finally m' fin f'"
  by (simp add: try_finally_def)

lemma except_db_cong: "m f = m' f' \<Longrightarrow> except_db m h f = except_db m' h f'"
  by (simp add: except_db_def)

lemma bind_lift_Inr: "bind (lift (Inr x)) k = k x"
  by (simp add: fun_eq_iff bind_def lift_def)

lemma bind_lift_Inl: "bind (lift (Inl e)) k = raise e"
  by (simp add: fun_eq_iff bind_def lift_def raise_def)

lemma release_trace:
  "trace (snd (release d f)) =
     trace f @ (case conn_var f of None \<Rightarrow> []
                | Some c \<Rightarrow> [(PutConn c, \<not> isl (fst (putconn d c (world f))))])"
  by (simp add: release_def bind_def get_conn_def invoke_def split: option.splits prod.splits)

lemma guarded_tail:
  assumes "emits (\<lambda>e. \<not> is_pool e) m" and "keeps_conn m"
  shows "\<exists>b. filter is_pool (trace (snd (try_finally m (release d) f))) =
     filter is_pool (trace f) @ (case conn_var f of None \<Rightarrow> [] | Some c \<Rightarrow> [(PutConn c, b)])"
proof -
  from assms(2) have c: "conn_var (snd (m f)) = conn_var f"
    by (simp add: keeps_conn_def)
  have p: "\<And>c b. is_pool (PutConn c, b)"
    by (simp add: is_pool_def)
  show ?thesis
    unfolding try_finally_frame release_trace c
    by (cases "conn_var f") (simp_all add: silent_filter [OF assms(1)] p)
qed

lemma guarded_pool:
  assumes "emits (\<lambda>e. \<not> is_pool e) body" and "keeps_conn body"
    and "\<And>msg. emits (\<lambda>e. \<not> is_pool e) (h msg)" and "\<And>msg. keeps_conn (h msg)"
    and "conn_var f = None"
  shows "\<exists>l. pool_shape l \<and>
     filter is_pool (trace (snd
       (try_finally (except_db (bind (acquire d) (\<lambda>_. body)) h) (release d) f))) =
     filter is_pool (trace f) @ l"
proof -
  obtain rg w1 where g: "getconn d (world f) = (rg, w1)" by (cases "getconn d (world f)")
  show ?thesis
  proof (cases rg)
    case (Inl e)
    let ?f1 = "f\<lparr>world := w1, trace := trace f @ [(GetConn, False)]\<rparr>"
    from g Inl have "bind (acquire d) (\<lambda>_. body) f = raise e ?f1"
      by (simp add: acquire_def bind_def invoke_def raise_def)
    then have eq: "try_finally (except_db (bind (acquire d) (\<lambda>_. body)) h) (release d) f
        = try_finally (except_db (raise e) h) (release d) ?f1"
      by (intro try_finally_cong except_db_cong)
    have "emits (\<lambda>e. \<not> is_pool e) (except_db (raise e) h)" "keeps_conn (except_db (raise e) h)"
      by (intro emits_except_db emits_raise keeps_except_db keeps_raise assms)+
    from guarded_tail [OF this, of d ?f1] assms(5)
    have "filter is_pool (trace (snd (try_finally (except_db (raise e) h) (release d) ?f1)))
        = filter is_pool (trace f) @ [(GetConn, False)]"
      by (simp add: is_pool_def)
    with eq show ?thesis by (auto simp add: pool_shape_def)
  next
    case (Inr c)
    let ?f1 = "f\<lparr>world := w1, trace := trace f @ [(GetConn, True)], conn_var := Some c\<rparr>"
    from g Inr have "bind (acquire d) (\<lambda>_. body) f = body ?f1"
      by (simp add: acquire_def bind_def invoke_def set_conn_def)
    then have eq: "try_finally (except_db (bind (acquire d) (\<lambda>_. body)) h) (release d) f
        = try_finally (except_db body h) (release d) ?f1"
      by (intro try_finally_cong except_db_cong)
    have "emits (\<lambda>e. \<not> is_pool e) (except_db body h)" "keeps_conn (except_db body h)"
      by (intro emits_except_db keeps_except_db assms)+
    from guarded_tail [OF this, of d ?f1]
    obtain b where "filter is_pool (trace (snd (try_finally (except_db body h) (release d) ?f1)))
        = filter is_pool (trace f) @ [(GetConn, True), (PutConn c, b)]"
      by (auto simp add: is_pool_def)
    with eq show ?thesis by (auto simp add: pool_shape_def)
  qed
qed

lemma unguarded_pool:
  assumes "\<And>msg. emits (\<lambda>e. \<not> is_pool e) (h msg)" and "\<And>msg. keeps_conn (h msg)"
    and "conn_var f = None"
  shows "filter is_pool (trace (snd (try_finally (except_db (raise e) h) (release d) f))) =
     filter is_pool (trace f)"
proof -
  have "emits (\<lambda>e. \<not> is_pool e) (except_db (raise e) h)" "keeps_conn (except_db (raise e) h)"
    by (intro emits_except_db emits_raise keeps_except_db keeps_raise assms)+
  from guarded_tail [OF this, of d f] assms(3) show ?thesis by simp
qed

lemma run_query_no_pool: "emits (\<lambda>e. \<not> is_pool e) (run_query d k sql)"
  unfolding run_query_def by (intro emits_rules; simp add: is_pool_def)

lemma run_query_keeps: "keeps_conn (run_query d k sql)"
  unfolding run_query_def by (intro keeps_rules)

lemma call_tool_pool_shape:
  "pool_shape (filter is_pool (snd (snd (handle_call_tool d name arguments w))))"
proof -
  let ?f0 = "\<lparr>world = w, trace = [], conn_var = None\<rparr>"
  have tr: "snd (snd (handle_call_tool d name arguments w)) = trace (snd (call_tool d name arguments ?f0))"
    by (simp add: handle_call_tool_def run_handler_def split: prod.splits)
  show ?thesis
  proof (cases "name = ''query'' \<and> (\<exists>sql. get_sql arguments = Inr sql \<and> sql \<noteq> []
      \<and> startswith (lower sql) ''select'')")
    case False
    then have "trace (snd (call_tool d name arguments ?f0)) = []"
      by (cases "get_sql arguments") (auto simp add: call_tool_def raise_def bind_def lift_def)
    with tr show ?thesis by (simp add: pool_shape_def)
  next
    case True
    then obtain sql where sql: "name = ''query''" "get_sql arguments = Inr sql" "sql \<noteq> []"
      "startswith (lower sql) ''select''" by blast
    let ?f1 = "?f0\<lparr>trace := [(Log Info (ExecutingQuery sql), True)]\<rparr>"
    let ?body = "with_cursor d (\<lambda>k.
        bind (invoke (Execute k begin_sql None) (execute d k begin_sql None)) (\<lambda>_.
        run_query d k sql))"
    let ?h = "\<lambda>msg. bind (log Error (QueryFailed msg)) (\<lambda>_.
        ret [\<lparr>tc_type = ''text'', tc_text = QueryFailedText msg\<rparr>])"
    from sql have eq: "call_tool d name arguments ?f0 =
        try_finally (except_db (bind (acquire d) (\<lambda>_. ?body)) ?h) (release d) ?f1"
      by (simp add: call_tool_def bind_def lift_def log_def)
    have "emits (\<lambda>e. \<not> is_pool e) ?body" "keeps_conn ?body"
      by (intro emits_rules run_query_no_pool keeps_rules run_query_keeps; simp add: is_pool_def)+
    moreover have "\<And>msg. emits (\<lambda>e. \<not> is_pool e) (?h msg)" "\<And>msg. keeps_conn (?h msg)"
      by (intro emits_rules keeps_rules; simp add: is_pool_def)+
    moreover have "conn_var ?f1 = None" by simp
    ultimately obtain l where "pool_shape l"
      "filter is_pool (trace (snd (try_finally (except_db (bind (acquire d) (\<lambda>_. ?body)) ?h)
          (release d) ?f1))) = filter is_pool (trace ?f1) @ l"
      using guarded_pool [of ?body ?h ?f1 d] by blast
    with eq tr show ?thesis by (simp add: is_pool_def)
  qed
qed

lemma list_resources_pool_shape:
  "pool_shape (filter is_pool (snd (snd (handle_list_resources d host w))))"
proof -
  let ?f0 = "\<lparr>world = w, trace = [], conn_var = None\<rparr>"
  let ?body = "with_cursor d (\<lambda>k.
      bind (invoke (Execute k list_tables_sql None) (execute d k list_tables_sql None)) (\<lambda>_.
      bind (invoke (FetchAll k) (fetchall d k)) (\<lambda>tables.
      lift (map_exn (resource_of host) tables))))"
  let ?h = "\<lambda>msg. bind (log Error (ListTablesFailed msg)) (\<lambda>_. raise (DbError msg))"
  have tr: "snd (snd (handle_list_resources d host w)) =
      trace (snd (try_finally (except_db (bind (acquire d) (\<lambda>_. ?body)) ?h) (release d) ?f0))"
    by (simp add: handle_list_resources_def list_resources_def run_handler_def split: prod.splits)
  have "emits (\<lambda>e. \<not> is_pool e) ?body" "keeps_conn ?body"
    by (intro emits_rules keeps_rules; simp add: is_pool_def)+
  moreover have "\<And>msg. emits (\<lambda>e. \<not> is_pool e) (?h msg)" "\<And>msg. keeps_conn (?h msg)"
    by (intro emits_rules keeps_rules; simp add: is_pool_def)+
  moreover have "conn_var ?f0 = None" by simp
  ultimately obtain l where "pool_shape l"
    "filter is_pool (trace (snd (try_finally (except_db (bind (acquire d) (\<lambda>_. ?body)) ?h)
        (release d) ?f0))) = filter is_pool (trace ?f0) @ l"
    using guarded_pool [of ?body ?h ?f0 d] by blast
  with tr show ?thesis by simp
qed

lemma read_resource_pool_shape:
  "pool_shape (filter is_pool (snd (snd (handle_read_resource d uri w))))"
proof -
  let ?f0 = "\<lparr>world = w, trace = [], conn_var = None\<rparr>"
  let ?h = "\<lambda>msg. bind (log Error (ReadSchemaFailed msg)) (\<lambda>_. raise (DbError msg))"
  have tr: "snd (snd (handle_read_resource d uri w)) = trace (snd (read_resource d uri ?f0))"
    by (simp add: handle_read_resource_def run_handler_def split: prod.splits)
  have h: "\<And>msg. emits (\<lambda>e. \<not> is_pool e) (?h msg)" "\<And>msg. keeps_conn (?h msg)"
    by (intro emits_rules keeps_rules; simp add: is_pool_def)+
  have f0: "conn_var ?f0 = None" by simp
  show ?thesis
  proof (cases "getitem_neg (split_slash uri) 2")
    case (Inl e)
    then have "read_resource d uri = try_finally (except_db (raise e) ?h) (release d)"
      by (simp add: read_resource_def bind_lift_Inl)
    with unguarded_pool [of ?h ?f0 e d, OF h f0]
    have e: "filter is_pool (trace (snd (read_resource d uri ?f0))) = []"
      by simp
    show ?thesis
      unfolding tr e by (simp add: pool_shape_def)
  next
    case (Inr t)
    let ?body = "with_cursor d (\<lambda>k.
       bind (invoke (Execute k columns_sql (Some [PStr t]))
               (execute d k columns_sql (Some [PStr t]))) (\<lambda>_.
       bind (invoke (FetchAll k) (fetchall d k)) (\<lambda>columns.
       bind (invoke (Execute k constraints_sql (Some [PStr t]))
               (execute d k constraints_sql (Some [PStr t]))) (\<lambda>_.
       bind (invoke (FetchAll k) (fetchall d k)) (\<lambda>constraints.
       bind (lift (map_exn column_of columns)) (\<lambda>cols.
       bind (lift (map_exn constraint_of constraints)) (\<lambda>cons.
       ret \<lparr>doc_columns = cols, doc_constraints = cons\<rparr>)))))))"
    from Inr have eq: "read_resource d uri =
        try_finally (except_db (bind (acquire d) (\<lambda>_. ?body)) ?h) (release d)"
      by (simp add: read_resource_def bind_lift_Inr describe_table_def)
    have "emits (\<lambda>e. \<not> is_pool e) ?body" "keeps_conn ?body"
      by (intro emits_rules keeps_rules; simp add: is_pool_def)+
    with h f0 obtain l where "pool_shape l"
      "filter is_pool (trace (snd (try_finally (except_db (bind (acquire d) (\<lambda>_. ?body)) ?h)
          (release d) ?f0))) = filter is_pool (trace ?f0) @ l"
      using guarded_pool [of ?body ?h ?f0 d] by blast
    with eq tr show ?thesis by simp
  qed
qed

lemma filter_within: "(\<And>x. P x \<Longrightarrow> Q x) \<Longrightarrow> filter P (filter Q xs) = filter P xs"
  by (induction xs) auto

lemma pool_shape_balanced:
  assumes "pool_shape (filter is_pool tr)"
  shows "acquired tr = release_calls tr \<and> acquire_calls tr \<le> 1"
proof -
  have a: "acquired tr = length (filter (\<lambda>e. e = (GetConn, True)) (filter is_pool tr))"
    unfolding acquired_def by (subst filter_within) (auto simp add: is_pool_def)
  have r: "release_calls tr =
      length (filter (\<lambda>e. case fst e of PutConn c \<Rightarrow> True | _ \<Rightarrow> False) (filter is_pool tr))"
    unfolding release_calls_def
    by (subst filter_within) (auto simp add: is_pool_def split: call.splits)
  have c: "acquire_calls tr = length (filter (\<lambda>e. fst e = GetConn) (filter is_pool tr))"
    unfolding acquire_calls_def by (subst filter_within) (auto simp add: is_pool_def)
  have "\<And>l. pool_shape l \<Longrightarrow>
      length (filter (\<lambda>e. e = (GetConn, True)) l)
        = length (filter (\<lambda>e. case fst e of PutConn c \<Rightarrow> True | _ \<Rightarrow> False) l)
      \<and> length (filter (\<lambda>e. fst e = GetConn) l) \<le> 1"
    by (auto simp add: pool_shape_def)
  from this [OF assms] show ?thesis
    by (simp only: a r c)
qed

lemma list_resources_pool_down:
  "handle_list_resources scripted ''db''
     \<lparr>script = [Raises (DbError ''connection refused'')], desc = None\<rparr> =
   (Inl (UnboundLocalError ''conn''), \<lparr>script = [], desc = None\<rparr>,
    [(GetConn, False), (Log Error (ListTablesFailed ''connection refused''), True)])"
  by (simp add: handle_list_resources_def list_resources_def py_defs scripted_defs)

text \<open>
  C2, as stated: in every invocation the calls of \<open>pool.getconn\<close> and of \<open>pool.putconn\<close> are
  equal in number, also when the acquire itself fails. When \<open>getconn\<close> raises, the handler
  has made one acquire call and makes no release call.
\<close>

theorem acquire_release_counterexample:
  "acquire_calls (snd (snd (handle_list_resources scripted ''db''
      \<lparr>script = [Raises (DbError ''connection refused'')], desc = None\<rparr>))) = 1
   \<and> release_calls (snd (snd (handle_list_resources scripted ''db''
      \<lparr>script = [Raises (DbError ''connection refused'')], desc = None\<rparr>))) = 0"
  by (simp add: list_resources_pool_down acquire_calls_def release_calls_def)

text \<open>
  C2, amended: in every invocation of \<open>handle_list_resources\<close>, \<open>handle_read_resource\<close> and
  \<open>handle_call_tool\<close>, whatever the driver does, the number of \<open>pool.getconn\<close> calls that
  returned a connection equals the number of \<open>pool.putconn\<close> calls, and \<open>pool.getconn\<close> is
  called at most once.
\<close>

theorem acquired_connections_released:
  "acquired (snd (snd (handle_list_resources d host w)))
     = release_calls (snd (snd (handle_list_resources d host w)))
   \<and> acquire_calls (snd (snd (handle_list_resources d host w))) \<le> 1
   \<and> acquired (snd (snd (handle_read_resource d uri w)))
     = release_calls (snd (snd (handle_read_resource d uri w)))
   \<and> acquire_calls (snd (snd (handle_read_resource d uri w))) \<le> 1
   \<and> acquired (snd (snd (handle_call_tool d name arguments w)))
     = release_calls (snd (snd (handle_call_tool d name arguments w)))
   \<and> acquire_calls (snd (snd (handle_call_tool d name arguments w))) \<le> 1"
  using pool_shape_balanced [OF list_resources_pool_shape, of d host w]
    pool_shape_balanced [OF read_resource_pool_shape, of d uri w]
    pool_shape_balanced [OF call_tool_pool_shape, of d name arguments w]
  by simp

theorem acquired_connections_released_witness:
  "acquired (snd (snd (handle_call_tool scripted ''query'' [''sql'' \<mapsto> PStr ''select 1''] idle))) = 1
   \<and> release_calls (snd (snd (handle_call_tool scripted ''query'' [''sql'' \<mapsto> PStr ''select 1''] idle))) = 1"
proof -
  have "acquired (snd (snd (handle_call_tool scripted ''query'' [''sql'' \<mapsto> PStr ''select 1''] idle))) = 1"
    by (simp add: select1_run acquired_def)
  with acquired_connections_released [of scripted "''db''" idle "''a/b''" "''query''"
      "[''sql'' \<mapsto> PStr ''select 1'']"]
  show ?thesis by simp
qed


subsection \<open>Failures before a connection is bound\<close>

text \<open>
  C7: the claim has every database error of the \<open>query\<close> tool, once validation has passed,
  come back as a tool response with an error text. When \<open>pool.getconn\<close> itself raises such
  an error, the \<open>except\<close> clause does build that response, but the \<open>finally\<close> clause then
  reads \<open>conn\<close>, which was never bound: the handler raises \<open>UnboundLocalError\<close>.
\<close>

theorem getconn_failure_escapes:
  assumes "arguments ''sql'' = Some (PStr s)" and "strip s \<noteq> []"
    and "startswith (lower (strip s)) ''select''"
    and "getconn d w = (Inl (DbError msg), w1)"
  shows "handle_call_tool d ''query'' arguments w =
     (Inl (UnboundLocalError ''conn''), w1,
      [(Log Info (ExecutingQuery (strip s)), True), (GetConn, False),
       (Log Error (QueryFailed msg), True)])"
  unfolding handle_call_tool_def call_tool_accepted [of arguments s, OF assms(1-3)]
  using assms(4) by (simp add: py_defs)

theorem getconn_failure_escapes_witness:
  "handle_call_tool scripted ''query'' [''sql'' \<mapsto> PStr ''select 1'']
     \<lparr>script = [Raises (DbError ''connection refused'')], desc = None\<rparr> =
   (Inl (UnboundLocalError ''conn''), \<lparr>script = [], desc = None\<rparr>,
    [(Log Info (ExecutingQuery ''select 1''), True), (GetConn, False),
     (Log Error (QueryFailed ''connection refused''), True)])"
proof -
  have a: "[''sql'' \<mapsto> PStr ''select 1''] ''sql'' = Some (PStr ''select 1'')" by simp
  have b: "strip ''select 1'' \<noteq> []" by (simp add: strip_select1)
  have c: "startswith (lower (strip ''select 1'')) ''select''"
    by (simp add: strip_select1 lower_select1 startswith_def)
  have g: "getconn scripted \<lparr>script = [Raises (DbError ''connection refused'')], desc = None\<rparr>
      = (Inl (DbError ''connection refused''), \<lparr>script = [], desc = None\<rparr>)"
    by (simp add: scripted_defs)
  from getconn_failure_escapes [of "[''sql'' \<mapsto> PStr ''select 1'']" "''select 1''", OF a b c g]
  show ?thesis by (simp add: strip_select1)
qed

text \<open>
  C6: the claim has a URI with fewer than two segments fail with an error about the URI.
  The index \<open>[-2]\<close> does raise \<open>IndexError\<close>, but it does so inside the \<open>try\<close> block, before
  \<open>conn\<close> is bound, and the \<open>finally\<close> clause replaces it: the handler raises
  \<open>UnboundLocalError\<close>, without a call on the pool.
\<close>

theorem short_uri_unbound:
  assumes "length (split_slash uri) < 2"
  shows "handle_read_resource d uri w = (Inl (UnboundLocalError ''conn''), w, [])"
  using assms
  by (simp add: handle_read_resource_def read_resource_def getitem_neg_def bind_lift_Inl
      raise_def py_defs)

theorem short_uri_unbound_witness:
  "length (split_slash ''users'') < 2
   \<and> handle_read_resource scripted ''users'' idle = (Inl (UnboundLocalError ''conn''), idle, [])"
  using short_uri_unbound [of "''users''" scripted idle]
  by simp

text \<open>
  Apart from that, the only database error the \<open>query\<close> tool lets through is one that
  \<open>pool.putconn\<close> itself raises in the \<open>finally\<close> clause.
\<close>

lemma query_db_error_from_release:
  assumes "fst (handle_call_tool d name arguments w) = Inl (DbError msg)"
  shows "\<exists>c tr. snd (snd (handle_call_tool d name arguments w)) = tr @ [(PutConn c, False)]"
proof -
  let ?f0 = "\<lparr>world = w, trace = [], conn_var = None\<rparr>"
  have run: "handle_call_tool d name arguments w =
      (fst (call_tool d name arguments ?f0), world (snd (call_tool d name arguments ?f0)),
       trace (snd (call_tool d name arguments ?f0)))"
    by (simp add: handle_call_tool_def run_handler_def split: prod.splits)
  show ?thesis
  proof (cases "name = ''query'' \<and> (\<exists>sql. get_sql arguments = Inr sql \<and> sql \<noteq> []
      \<and> startswith (lower sql) ''select'')")
    case False
    then have "fst (call_tool d name arguments ?f0) \<noteq> Inl (DbError msg)"
      by (cases "get_sql arguments")
        (auto simp add: call_tool_def raise_def bind_def lift_def get_sql_def
          split: option.splits pyval.splits)
    with assms run show ?thesis by simp
  next
    case True
    then obtain sql where sql: "name = ''query''" "get_sql arguments = Inr sql" "sql \<noteq> []"
      "startswith (lower sql) ''select''" by blast
    let ?f1 = "?f0\<lparr>trace := [(Log Info (ExecutingQuery sql), True)]\<rparr>"
    let ?h = "\<lambda>msg. bind (log Error (QueryFailed msg)) (\<lambda>_.
        ret [\<lparr>tc_type = ''text'', tc_text = QueryFailedText msg\<rparr>])"
    let ?m = "bind (acquire d) (\<lambda>_. with_cursor d (\<lambda>k.
        bind (invoke (Execute k begin_sql None) (execute d k begin_sql None)) (\<lambda>_.
        run_query d k sql)))"
    from sql have eq: "call_tool d name arguments ?f0 =
        try_finally (except_db ?m ?h) (release d) ?f1"
      by (simp add: call_tool_def bind_def lift_def log_def)
    obtain r fa where x: "except_db ?m ?h ?f1 = (r, fa)" by (cases "except_db ?m ?h ?f1")
    have r: "r \<noteq> Inl (DbError msg)"
    proof
      assume "r = Inl (DbError msg)"
      with x show False
        by (auto simp add: except_db_def bind_def log_def ret_def
            split: prod.splits sum.splits exn.splits)
    qed
    obtain u fb where rel: "release d fa = (u, fb)" by (cases "release d fa")
    from x rel have tf: "try_finally (except_db ?m ?h) (release d) ?f1 =
        (case u of Inl e \<Rightarrow> (Inl e, fb) | Inr v \<Rightarrow> (r, fb))"
      by (simp add: try_finally_def split: sum.splits)
    from assms run eq tf r have u: "u = Inl (DbError msg)"
      by (cases u) simp_all
    from rel u obtain c where "trace fb = trace fa @ [(PutConn c, False)]"
      by (auto simp add: release_def bind_def get_conn_def invoke_def
          split: option.splits prod.splits)
    with run eq tf u show ?thesis by simp
  qed
qed


subsection \<open>The schema document\<close>

lemma map_exn_total:
  assumes "\<forall>x \<in> set xs. g x = Inr (h x)"
  shows "map_exn g xs = Inr (map h xs)"
  using assms by (induction xs) (simp_all add: sbind_def)

lemma column_of_row:
  "4 \<le> length col \<Longrightarrow>
   column_of col = Inr \<lparr>col_name = col ! 0, col_type = col ! 1,
     col_nullable = (col ! 2 = PStr ''YES''), col_description = col ! 3\<rparr>"
  by (auto simp add: column_of_def getitem_def sbind_def)

lemma constraint_of_row:
  "2 \<le> length con \<Longrightarrow> constraint_of con = Inr \<lparr>con_name = con ! 0, con_type = con ! 1\<rparr>"
  by (auto simp add: constraint_of_def getitem_def sbind_def)

text \<open>
  When the two statements of \<open>handle_read_resource\<close> are answered with the rows \<open>cols\<close> and
  \<open>cons\<close>, the document holds those rows in the order given.
\<close>

lemma schema_document_of_rows:
  assumes "getitem_neg (split_slash uri) 2 = Inr t"
    and "getconn d w = (Inr c, w1)"
    and "cursor d c w1 = (Inr k, w2)"
    and "execute d k columns_sql (Some [PStr t]) w2 = (Inr (), w3)"
    and "fetchall d k w3 = (Inr cols, w4)"
    and "execute d k constraints_sql (Some [PStr t]) w4 = (Inr (), w5)"
    and "fetchall d k w5 = (Inr cons, w6)"
    and "close d k w6 = (Inr (), w7)"
    and "putconn d c w7 = (Inr (), w8)"
    and "\<forall>col \<in> set cols. 4 \<le> length col"
    and "\<forall>con \<in> set cons. 2 \<le> length con"
  shows "fst (handle_read_resource d uri w) =
     Inr \<lparr>doc_columns =
            map (\<lambda>col. \<lparr>col_name = col ! 0, col_type = col ! 1,
                         col_nullable = (col ! 2 = PStr ''YES''),
                         col_description = col ! 3\<rparr>) cols,
          doc_constraints = map (\<lambda>con. \<lparr>con_name = con ! 0, con_type = con ! 1\<rparr>) cons\<rparr>"
proof -
  have cols: "map_exn column_of cols =
      Inr (map (\<lambda>col. \<lparr>col_name = col ! 0, col_type = col ! 1,
                         col_nullable = (col ! 2 = PStr ''YES''),
                         col_description = col ! 3\<rparr>) cols)"
    using assms(10) by (intro map_exn_total) (simp add: column_of_row)
  have cons: "map_exn constraint_of cons =
      Inr (map (\<lambda>con. \<lparr>con_name = con ! 0, con_type = con ! 1\<rparr>) cons)"
    using assms(11) by (intro map_exn_total) (simp add: constraint_of_row)
  show ?thesis
    using assms(1-9)
    by (simp add: handle_read_resource_def read_resource_def describe_table_def cols cons py_defs)
qed

lemma split_table_uri:
  "split_slash ''postgres://db/t/schema'' = [''postgres:'', [], ''db'', ''t'', ''schema'']"
  by simp

lemma column_rows_wide: "\<forall>col \<in> set (columns_of ordered t cat). 4 \<le> length col"
  by (simp add: columns_of_def column_row_def)

lemma constraint_rows_wide: "\<forall>con \<in> set (constraints_of t cat). 2 \<le> length con"
  by (simp add: constraints_of_def constraint_row_def)

lemma postgres_document:
  assumes "getitem_neg (split_slash uri) 2 = Inr t"
  shows "fst (handle_read_resource postgres uri s) =
     Inr \<lparr>doc_columns =
            map (\<lambda>col. \<lparr>col_name = col ! 0, col_type = col ! 1,
                         col_nullable = (col ! 2 = PStr ''YES''),
                         col_description = col ! 3\<rparr>) (columns_of True t (seen s)),
          doc_constraints =
            map (\<lambda>con. \<lparr>con_name = con ! 0, con_type = con ! 1\<rparr>) (constraints_of t (seen s))\<rparr>"
proof -
  let ?s1 = "s\<lparr>result_set := Some (columns_of True t (seen s))\<rparr>"
  let ?s2 = "s\<lparr>result_set := Some (constraints_of t (seen s))\<rparr>"
  have 2: "getconn postgres s = (Inr 1, s)" by (simp add: postgres_def)
  have 3: "cursor postgres 1 s = (Inr 1, s)" by (simp add: postgres_def)
  have 4: "execute postgres 1 columns_sql (Some [PStr t]) s = (Inr (), ?s1)"
    by (simp add: postgres_def parse_columns_sql)
  have 5: "fetchall postgres 1 ?s1 = (Inr (columns_of True t (seen s)), ?s1)"
    by (simp add: postgres_def)
  have 6: "execute postgres 1 constraints_sql (Some [PStr t]) ?s1 = (Inr (), ?s2)"
    by (simp add: postgres_def parse_constraints_sql)
  have 7: "fetchall postgres 1 ?s2 = (Inr (constraints_of t (seen s)), ?s2)"
    by (simp add: postgres_def)
  have 8: "close postgres 1 ?s2 = (Inr (), ?s2)" by (simp add: postgres_def)
  have 9: "putconn postgres 1 ?s2 = (Inr (), ?s2)" by (simp add: postgres_def)
  show ?thesis
    by (rule schema_document_of_rows
        [OF assms 2 3 4 5 6 7 8 9 column_rows_wide constraint_rows_wide])
qed

text \<open>
  C8: on a database whose table \<open>t\<close> has the columns \<open>id int not null\<close> and \<open>name text\<close>, at
  ordinal positions \<open>i < j\<close>, without comments and without constraints, \<open>handle_read_resource\<close>
  on a URI naming \<open>t\<close> returns the document with the columns \<open>id\<close> (type \<open>integer\<close>, as the
  catalog names \<open>int\<close>; not nullable) and \<open>name\<close> (type \<open>text\<close>; nullable), in this order, and
  with no constraints. The order is the query's \<open>ORDER BY ordinal_position\<close>: it holds
  whichever way round the catalog stores the two rows; nullable is read off the catalog's
  \<open>is_nullable\<close> being \<open>YES\<close>.
\<close>

theorem two_column_table_document:
  assumes "getitem_neg (split_slash uri) 2 = Inr t" and "i < j"
    and "filter (\<lambda>c. cd_table c = t) (cat_columns (seen s)) =
           [\<lparr>cd_table = t, cd_name = ''id'', cd_type = SqlInt, cd_not_null = True,
              cd_ordinal = i, cd_comment = PNone\<rparr>,
            \<lparr>cd_table = t, cd_name = ''name'', cd_type = SqlText, cd_not_null = False,
              cd_ordinal = j, cd_comment = PNone\<rparr>]
         \<or> filter (\<lambda>c. cd_table c = t) (cat_columns (seen s)) =
           [\<lparr>cd_table = t, cd_name = ''name'', cd_type = SqlText, cd_not_null = False,
              cd_ordinal = j, cd_comment = PNone\<rparr>,
            \<lparr>cd_table = t, cd_name = ''id'', cd_type = SqlInt, cd_not_null = True,
              cd_ordinal = i, cd_comment = PNone\<rparr>]"
    and "filter (\<lambda>c. ct_table c = t) (cat_constraints (seen s)) = []"
  shows "fst (handle_read_resource postgres uri s) =
     Inr \<lparr>doc_columns =
            [\<lparr>col_name = PStr ''id'', col_type = PStr ''integer'', col_nullable = False,
               col_description = PNone\<rparr>,
             \<lparr>col_name = PStr ''name'', col_type = PStr ''text'', col_nullable = True,
               col_description = PNone\<rparr>],
          doc_constraints = []\<rparr>"
proof -
  from assms(2,3) have "columns_of True t (seen s) =
      [[PStr ''id'', PStr ''integer'', PStr ''NO'', PNone],
       [PStr ''name'', PStr ''text'', PStr ''YES'', PNone]]"
    by (auto simp add: columns_of_def column_row_def)
  moreover from assms(4) have "constraints_of t (seen s) = []"
    by (simp add: constraints_of_def)
  ultimately show ?thesis
    by (simp add: postgres_document [OF assms(1)])
qed

theorem two_column_table_document_witness:
  "fst (handle_read_resource postgres ''postgres://db/t/schema''
     (fresh
        \<lparr>cat_tables = [(''t'', PNone), (''u'', PNone)],
         cat_columns =
           [\<lparr>cd_table = ''t'', cd_name = ''name'', cd_type = SqlText, cd_not_null = False,
              cd_ordinal = 2, cd_comment = PNone\<rparr>,
            \<lparr>cd_table = ''u'', cd_name = ''k'', cd_type = SqlInt, cd_not_null = True,
              cd_ordinal = 1, cd_comment = PNone\<rparr>,
            \<lparr>cd_table = ''t'', cd_name = ''id'', cd_type = SqlInt, cd_not_null = True,
              cd_ordinal = 1, cd_comment = PNone\<rparr>],
         cat_constraints = [\<lparr>ct_table = ''u'', ct_name = ''u_pkey'', ct_kind = ''p''\<rparr>]\<rparr>)) =
   Inr \<lparr>doc_columns =
          [\<lparr>col_name = PStr ''id'', col_type = PStr ''integer'', col_nullable = False,
             col_description = PNone\<rparr>,
           \<lparr>col_name = PStr ''name'', col_type = PStr ''text'', col_nullable = True,
             col_description = PNone\<rparr>],
        doc_constraints = []\<rparr>"
proof -
  have 1: "getitem_neg (split_slash ''postgres://db/t/schema'') 2 = Inr ''t''"
    by (simp add: split_table_uri getitem_neg_def)
  have 2: "(1::nat) < 2" by simp
  show ?thesis
    by (rule two_column_table_document [OF 1 2]) (simp_all add: fresh_def)
qed

subsection \<open>The table name of a resource URI\<close>

lemma guarded_statements:
  assumes "\<And>k. yields is_statement S (body k)" and "S []"
    and "\<And>msg. emits (\<lambda>e. \<not> is_statement e) (h msg)"
  shows "yields is_statement S
     (try_finally (except_db (bind (acquire d) (\<lambda>_. with_cursor d body)) h) (release d))"
proof (rule yields_try_finally)
  show "emits (\<lambda>e. \<not> is_statement e) (release d)"
    by (rule emits_release) (simp add: is_statement_def)
  have cur: "yields is_statement S (with_cursor d body)"
    unfolding with_cursor_def
  proof (rule yields_after)
    show "emits (\<lambda>e. \<not> is_statement e) get_conn" by (rule emits_get_conn)
    show "S []" by (rule assms(2))
    fix c
    show "yields is_statement S
       (bind (invoke (Cursor c) (cursor d c)) (\<lambda>k.
        try_finally (body k) (invoke (Close k) (close d k))))"
    proof (rule yields_after)
      show "emits (\<lambda>e. \<not> is_statement e) (invoke (Cursor c) (cursor d c))"
        by (rule emits_invoke; simp add: is_statement_def)
      show "S []" by (rule assms(2))
      fix k
      show "yields is_statement S (try_finally (body k) (invoke (Close k) (close d k)))"
        by (rule yields_try_finally [OF assms(1)]) (rule emits_invoke; simp add: is_statement_def)
    qed
  qed
  have "yields is_statement S (bind (acquire d) (\<lambda>_. with_cursor d body))"
    by (rule yields_after) (rule emits_acquire cur assms(2); simp add: is_statement_def)+
  then show "yields is_statement S
      (except_db (bind (acquire d) (\<lambda>_. with_cursor d body)) h)"
    by (rule yields_except_db) (rule assms(3))
qed

lemma describe_table_statements:
  "yields is_statement (catalog_statements t)
     (try_finally
        (except_db (describe_table d t)
           (\<lambda>msg. bind (log Error (ReadSchemaFailed msg)) (\<lambda>_. raise (DbError msg))))
        (release d))"
  unfolding describe_table_def
proof (rule guarded_statements)
  show "catalog_statements t []" by (simp add: catalog_statements_def)
  fix msg
  show "emits (\<lambda>e. \<not> is_statement e)
      (bind (log Error (ReadSchemaFailed msg)) (\<lambda>_. raise (DbError msg)))"
    by (intro emits_rules; simp add: is_statement_def)
next
  fix k
  let ?p = "Some [PStr t]"
  have rest: "\<And>constraints columns. emits (\<lambda>e. \<not> is_statement e)
      (bind (lift (map_exn column_of columns)) (\<lambda>cols.
       bind (lift (map_exn constraint_of constraints)) (\<lambda>cons.
       ret \<lparr>doc_columns = cols, doc_constraints = cons\<rparr>)))"
    by (intro emits_rules)
  have second: "\<And>columns. yields is_statement
      (\<lambda>l. l = [] \<or> (\<exists>b. l = [(Execute k constraints_sql ?p, b)]))
      (bind (invoke (Execute k constraints_sql ?p) (execute d k constraints_sql ?p)) (\<lambda>_.
       bind (invoke (FetchAll k) (fetchall d k)) (\<lambda>constraints.
       bind (lift (map_exn column_of columns)) (\<lambda>cols.
       bind (lift (map_exn constraint_of constraints)) (\<lambda>cons.
       ret \<lparr>doc_columns = cols, doc_constraints = cons\<rparr>)))))"
  proof -
    fix columns
    have "\<And>u::unit. yields is_statement (\<lambda>l. l = [])
        (bind (invoke (FetchAll k) (fetchall d k)) (\<lambda>constraints.
         bind (lift (map_exn column_of columns)) (\<lambda>cols.
         bind (lift (map_exn constraint_of constraints)) (\<lambda>cons.
         ret \<lparr>doc_columns = cols, doc_constraints = cons\<rparr>))))"
      by (rule yields_silent, (intro emits_rules; simp add: is_statement_def), simp)
    from yields_invoke_bind [of is_statement "Execute k constraints_sql ?p", OF _ _ this]
    show "yields is_statement
      (\<lambda>l. l = [] \<or> (\<exists>b. l = [(Execute k constraints_sql ?p, b)]))
      (bind (invoke (Execute k constraints_sql ?p) (execute d k constraints_sql ?p)) (\<lambda>_.
       bind (invoke (FetchAll k) (fetchall d k)) (\<lambda>constraints.
       bind (lift (map_exn column_of columns)) (\<lambda>cols.
       bind (lift (map_exn constraint_of constraints)) (\<lambda>cons.
       ret \<lparr>doc_columns = cols, doc_constraints = cons\<rparr>)))))"
      by (rule yields_weaken) (auto simp add: is_statement_def)
  qed
  have fetch: "\<And>u::unit. yields is_statement
      (\<lambda>l. l = [] \<or> (\<exists>b. l = [(Execute k constraints_sql ?p, b)]))
      (bind (invoke (FetchAll k) (fetchall d k)) (\<lambda>columns.
       bind (invoke (Execute k constraints_sql ?p) (execute d k constraints_sql ?p)) (\<lambda>_.
       bind (invoke (FetchAll k) (fetchall d k)) (\<lambda>constraints.
       bind (lift (map_exn column_of columns)) (\<lambda>cols.
       bind (lift (map_exn constraint_of constraints)) (\<lambda>cons.
       ret \<lparr>doc_columns = cols, doc_constraints = cons\<rparr>))))))"
    by (rule yields_after, (rule emits_invoke; simp add: is_statement_def), rule second, simp)
  from yields_invoke_bind [of is_statement "Execute k columns_sql ?p", OF _ _ fetch]
  show "yields is_statement (catalog_statements t)
      (bind (invoke (Execute k columns_sql ?p) (execute d k columns_sql ?p)) (\<lambda>_.
       bind (invoke (FetchAll k) (fetchall d k)) (\<lambda>columns.
       bind (invoke (Execute k constraints_sql ?p) (execute d k constraints_sql ?p)) (\<lambda>_.
       bind (invoke (FetchAll k) (fetchall d k)) (\<lambda>constraints.
       bind (lift (map_exn column_of columns)) (\<lambda>cols.
       bind (lift (map_exn constraint_of constraints)) (\<lambda>cons.
       ret \<lparr>doc_columns = cols, doc_constraints = cons\<rparr>)))))))"
    by (rule yields_weaken) (auto simp add: is_statement_def catalog_statements_def)
qed

lemma read_resource_segment:
  assumes "2 \<le> length (split_slash uri)"
  shows "read_resource d uri =
     try_finally
       (except_db (describe_table d (split_slash uri ! (length (split_slash uri) - 2)))
          (\<lambda>msg. bind (log Error (ReadSchemaFailed msg)) (\<lambda>_. raise (DbError msg))))
       (release d)"
  using assms by (simp add: read_resource_def getitem_neg_def bind_lift_Inr)

text \<open>
  C10: for a URI of at least two \<open>/\<close>-separated segments, the statements that
  \<open>handle_read_resource\<close> executes are the two fixed catalog queries, in this order and
  as far as the driver lets it get, each with the second-to-last segment bound as its one
  parameter; and two URIs with the same second-to-last segment give the same outcome, the
  same world and the same calls, so nothing else of the URI is looked at.
\<close>

theorem table_name_bound_as_parameter:
  fixes uri uri' :: string
  defines "t \<equiv> split_slash uri ! (length (split_slash uri) - 2)"
  assumes "2 \<le> length (split_slash uri)"
  shows "(statement_vars (snd (snd (handle_read_resource d uri w))) = []
          \<or> statement_vars (snd (snd (handle_read_resource d uri w)))
              = [(columns_sql, Some [PStr t])]
          \<or> statement_vars (snd (snd (handle_read_resource d uri w)))
              = [(columns_sql, Some [PStr t]), (constraints_sql, Some [PStr t])])
       \<and> (2 \<le> length (split_slash uri')
            \<and> split_slash uri' ! (length (split_slash uri') - 2) = t
          \<longrightarrow> handle_read_resource d uri' w = handle_read_resource d uri w)"
proof -
  let ?H = "handle_read_resource d uri w"
  have "run_handler (read_resource d uri) w = (fst ?H, fst (snd ?H), snd (snd ?H))"
    by (simp add: handle_read_resource_def)
  then have "catalog_statements t (filter is_statement (snd (snd ?H)))"
    unfolding read_resource_segment [OF assms(2)] t_def
    by (rule run_handler_trace [OF describe_table_statements])
  then have first: "statement_vars (snd (snd ?H)) = []
      \<or> statement_vars (snd (snd ?H)) = [(columns_sql, Some [PStr t])]
      \<or> statement_vars (snd (snd ?H)) = [(columns_sql, Some [PStr t]), (constraints_sql, Some [PStr t])]"
    by (auto simp add: catalog_statements_def statement_vars_def)
  have "handle_read_resource d uri' w = ?H"
    if "2 \<le> length (split_slash uri')" "split_slash uri' ! (length (split_slash uri') - 2) = t"
    using that
    by (simp add: handle_read_resource_def read_resource_segment assms(2) t_def)
  with first show ?thesis by blast
qed

lemma split_other_uri: "split_slash ''x/t/y'' = [''x'', ''t'', ''y'']"
  by simp

lemma read_t_idle:
  "handle_read_resource scripted ''postgres://db/t/schema'' idle =
     (Inr \<lparr>doc_columns = [], doc_constraints = []\<rparr>, idle,
      [(GetConn, True), (Cursor 1, True),
       (Execute 1 columns_sql (Some [PStr ''t'']), True), (FetchAll 1, True),
       (Execute 1 constraints_sql (Some [PStr ''t'']), True), (FetchAll 1, True),
       (Close 1, True), (PutConn 1, True)])"
  by (simp add: handle_read_resource_def read_resource_def describe_table_def split_table_uri
      getitem_neg_def py_defs scripted_defs)

theorem table_name_bound_as_parameter_witness:
  "statement_vars (snd (snd (handle_read_resource scripted ''postgres://db/t/schema'' idle)))
     = [(columns_sql, Some [PStr ''t'']), (constraints_sql, Some [PStr ''t''])]
   \<and> handle_read_resource scripted ''x/t/y'' idle
     = handle_read_resource scripted ''postgres://db/t/schema'' idle"
proof -
  have a: "2 \<le> length (split_slash ''postgres://db/t/schema'')"
    by (simp add: split_table_uri)
  have b: "2 \<le> length (split_slash ''x/t/y'')
      \<and> split_slash ''x/t/y'' ! (length (split_slash ''x/t/y'') - 2)
          = split_slash ''postgres://db/t/schema'' ! (length (split_slash ''postgres://db/t/schema'') - 2)"
    by (simp add: split_table_uri split_other_uri)
  have c: "statement_vars (snd (snd (handle_read_resource scripted ''postgres://db/t/schema'' idle)))
     = [(columns_sql, Some [PStr ''t'']), (constraints_sql, Some [PStr ''t''])]"
    by (simp add: read_t_idle statement_vars_def is_statement_def)
  from table_name_bound_as_parameter [OF a, of scripted idle "''x/t/y''"] b c
  show ?thesis by blast
qed


end
